theory Spec2Isabelle
  imports Complex_Main
begin

section \<open>The storyline engine of docu-maker (app/src/lib/storylineGenerator.ts)\<close>

text \<open>
  The engine turns a list of dated anecdotes into storylines: a greedy chain of anecdotes
  per recipe, rendered into beats. The embedding follows the TypeScript function by
  function. Conventions of the embedding:
  \<^item> JavaScript numbers are modelled as exact numbers: scores are \<^typ>\<open>real\<close>, counts and
    lengths are \<^typ>\<open>nat\<close>, timestamps, years and target lengths are \<^typ>\<open>int\<close>. The decimal
    constants (2.4, 1.35, ...) are the exact decimals, so a sum of scores is the exact sum
    and not its nearest double;
  \<open>Math.log\<close> is \<^const>\<open>ln\<close>.
  \<^item> \<open>new Date(a.date).getTime()\<close> belongs to the platform; it is the parameter
    \<open>getTime\<close>, and dates are taken to parse (a timestamp is an integer, never NaN).
  \<^item> Strings are \<^typ>\<open>string\<close> over ASCII; \<open>toLowerCase\<close> maps A-Z to a-z.
  \<^item> A JavaScript \<open>Set\<close> of strings is the list of its elements in insertion order, a
    \<open>Map\<close> whose order is never read is a map \<open>string \<rightharpoonup> 'v\<close>.
  \<^item> The one exception the code can raise is the TypeError of reading a field of
    \<open>undefined\<close> (\<open>chain[0]\<close> of an empty chain); it is the value \<open>Inl TypeError\<close>.
\<close>

subsection \<open>Data model (app/src/types/index.ts)\<close>

datatype MediaType = Image | Video | Audio

record Media =
  media_id :: string
  media_type :: MediaType
  url :: string
  caption :: "string option"

record Anecdote =
  anecdote_id :: string
  date :: string
  year :: int
  title :: string
  story :: string
  storyteller :: string
  location :: string
  anecdote_notes :: string
  media :: "Media list"
  tags :: "string list"
  createdAt :: int
  updatedAt :: int

text \<open>\<open>AnecdoteMeta = Anecdote & { _timestamp, _text, _tags }\<close>\<close>

record AnecdoteMeta = Anecdote +
  m_timestamp :: int
  m_text :: string
  m_tags :: "string list"

type_synonym TagWeights = "string \<rightharpoonup> real"

record ThemeScore =
  theme_total :: real
  tagScore :: real
  keywordScore :: real
  impactScore :: real

datatype StorylineStyle = Style50cent | Jesse | Coogler | Hybrid

datatype RecipeMode = Chronological | TagMode | Impact | Community

record StorylineRecipe =
  recipe_id :: string
  recipe_title :: string
  recipe_description :: string
  recipe_style :: StorylineStyle
  mode :: RecipeMode
  focusTags :: "string list"
  focusKeywords :: "string list"

record StorylineScoreBreakdown =
  total :: real
  sharedTagScore :: real
  storytellerScore :: real
  locationScore :: real
  chronologyScore :: real
  recencyScore :: real
  themeScore :: real
  usagePenalty :: real
  modePenalty :: real
  storytellerStreak :: nat
  sharedTagList :: "string list"
  previousAnecdoteId :: string
  candidateAnecdoteId :: string

datatype ConnectionType = TagLink | StorytellerLink | LocationLink | ChronologyLink

record StorylineConnection =
  connection_type :: ConnectionType
  label :: string

record StorylineBeat =
  beat_id :: string
  anecdote :: AnecdoteMeta
  summary :: string
  voiceover :: string
  connection :: "StorylineConnection option"
  intensity :: int
  debug :: "StorylineScoreBreakdown option"

record Timeframe =
  tf_start :: string
  tf_end :: string
  years :: "int list"

record Storyline =
  storyline_id :: string
  storyline_title :: string
  storyline_description :: string
  storyline_style :: StorylineStyle
  tone :: string
  openingLine :: string
  closingLine :: string
  beats :: "StorylineBeat list"
  storyline_tags :: "string list"
  timeframe :: Timeframe

record ChainBuildResult =
  chain :: "AnecdoteMeta list"
  debugByBeat :: "string \<rightharpoonup> StorylineScoreBreakdown"

datatype error = TypeError

subsection \<open>Constants\<close>

definition NIGHTLIFE_TAGS :: "string list" where
  "NIGHTLIFE_TAGS = [''dj'', ''dance'', ''club'', ''night'', ''party'', ''show'', ''venue'', ''live'']"

definition NIGHTLIFE_KEYWORDS :: "string list" where
  "NIGHTLIFE_KEYWORDS = [''dj'', ''dance'', ''club'', ''night'', ''party'', ''show'', ''stage'',
     ''crowd'', ''set'', ''bass'', ''dancefloor'', ''venue'', ''afterparty'']"

definition IMPACT_KEYWORDS :: "string list" where
  "IMPACT_KEYWORDS = [''first'', ''sold out'', ''breakthrough'', ''headline'', ''festival'',
     ''tour'', ''radio'', ''award'', ''viral'', ''mainstream'', ''debut'', ''record'', ''packed'',
     ''historic'']"

definition COMMUNITY_KEYWORDS :: "string list" where
  "COMMUNITY_KEYWORDS = [''community'', ''diaspora'', ''collective'', ''organizer'', ''student'',
     ''campus'', ''family'', ''roots'', ''culture'', ''heritage'', ''immigrant'', ''neighbors'']"

definition STYLE_TONE :: "StorylineStyle \<Rightarrow> string" where
  "STYLE_TONE s = (case s of
       Style50cent \<Rightarrow> ''Gritty, first-person energy with swagger''
     | Jesse \<Rightarrow> ''Measured, human-centered reporting with reflective edges (Jesse Washington cut)''
     | Coogler \<Rightarrow> ''Cinematic, character-driven with emotional build and hope''
     | Hybrid \<Rightarrow> ''Cinematic with journalistic edge'')"

definition YEAR_MS :: int where
  "YEAR_MS = 1000 * 60 * 60 * 24 * 365"

text \<open>The table \<open>SCORE_WEIGHTS\<close>, one constant per entry.\<close>

definition w_sharedTag :: real where "w_sharedTag = 24 / 10"
definition w_storytellerBase :: real where "w_storytellerBase = 3"
definition w_storytellerMin :: real where "w_storytellerMin = 8 / 10"
definition w_storytellerDecay :: real where "w_storytellerDecay = 135 / 100"
definition w_storytellerVarietyBonus :: real where "w_storytellerVarietyBonus = 12 / 10"
definition w_location :: real where "w_location = 175 / 100"
definition w_chronologicalForward :: real where "w_chronologicalForward = 24 / 10"
definition w_timeWithinYear :: real where "w_timeWithinYear = 125 / 100"
definition w_timeWithin3Years :: real where "w_timeWithin3Years = 4 / 10"
definition w_usagePenalty :: real where "w_usagePenalty = 11 / 10"
definition w_chronologicalBacktrackPenalty :: real where "w_chronologicalBacktrackPenalty = 45 / 10"
definition w_themeTagWeight :: real where "w_themeTagWeight = 29 / 10"
definition w_themeKeywordWeight :: real where "w_themeKeywordWeight = 16 / 10"
definition w_impactModeMultiplier :: real where "w_impactModeMultiplier = 12 / 10"
definition w_startImpactBoost :: real where "w_startImpactBoost = 5 / 10"
definition w_startUsagePenalty :: real where "w_startUsagePenalty = 14 / 10"

subsection \<open>Strings\<close>

definition upperCaseLetters :: string where
  "upperCaseLetters = ''ABCDEFGHIJKLMNOPQRSTUVWXYZ''"

definition lowerCaseLetters :: string where
  "lowerCaseLetters = ''abcdefghijklmnopqrstuvwxyz''"

definition decimalDigits :: string where
  "decimalDigits = ''0123456789''"

definition lowerChar :: "char \<Rightarrow> char" where
  "lowerChar c = (case map_of (zip upperCaseLetters lowerCaseLetters) c of
     Some l \<Rightarrow> l | None \<Rightarrow> c)"

definition toLowerCase :: "string \<Rightarrow> string" where
  "toLowerCase s = map lowerChar s"

text \<open>\<open>xs.join(sep)\<close>\<close>

fun join :: "string \<Rightarrow> string list \<Rightarrow> string" where
  "join sep [] = []"
| "join sep [x] = x"
| "join sep (x # y # ys) = x @ sep @ join sep (y # ys)"

fun startsWith :: "string \<Rightarrow> string \<Rightarrow> bool" where
  "startsWith s [] = True"
| "startsWith [] (k # ks) = False"
| "startsWith (c # cs) (k # ks) = (c = k \<and> startsWith cs ks)"

text \<open>\<open>text.includes(k)\<close> on strings: \<open>k\<close> occurs as a substring.\<close>

fun str_includes :: "string \<Rightarrow> string \<Rightarrow> bool" where
  "str_includes [] k = (k = [])"
| "str_includes (c # cs) k = (startsWith (c # cs) k \<or> str_includes cs k)"

text \<open>The white space \<open>trim\<close> removes: space, tab, line feed, vertical tab, form feed, return.\<close>

definition isSpace :: "char \<Rightarrow> bool" where
  "isSpace c = (c \<in> set [CHR '' '', CHR 0x09, CHR 0x0A, CHR 0x0B, CHR 0x0C, CHR 0x0D])"

definition trim :: "string \<Rightarrow> string" where
  "trim s = rev (dropWhile isSpace (rev (dropWhile isSpace s)))"

text \<open>A word character of a regular expression: \<open>[A-Za-z0-9_]\<close>.\<close>

definition isWordChar :: "char \<Rightarrow> bool" where
  "isWordChar c =
     (c \<in> set lowerCaseLetters \<or> c \<in> set upperCaseLetters \<or> c \<in> set decimalDigits \<or> c = CHR ''_'')"

text \<open>
  \<open>text.match(new RegExp(`\\b${escapeRegex(k)}\\b`, 'g'))\<close>: \<open>escapeRegex\<close> makes the keyword
  a literal, so a match at a position is the keyword itself between two word boundaries.
  \<open>matchHere prevW k s\<close> tests a match at the head of \<open>s\<close>, where \<open>prevW\<close> tells whether the
  character before \<open>s\<close> is a word character (False at the start of the text).
\<close>

definition matchHere :: "bool \<Rightarrow> string \<Rightarrow> string \<Rightarrow> bool" where
  "matchHere prevW k s =
     (k \<noteq> [] \<and> startsWith s k \<and>
      prevW \<noteq> isWordChar (hd k) \<and>
      isWordChar (last k) \<noteq> (case drop (length k) s of [] \<Rightarrow> False | c # _ \<Rightarrow> isWordChar c))"

text \<open>
  The global flag: scan from the left; after a match the scan resumes behind it
  (\<open>skip\<close> counts the characters of the match still to pass).
\<close>

fun countRegexMatches :: "bool \<Rightarrow> nat \<Rightarrow> string \<Rightarrow> string \<Rightarrow> nat" where
  "countRegexMatches prevW skip k [] = 0"
| "countRegexMatches prevW skip k (c # cs) =
     (if 0 < skip then countRegexMatches (isWordChar c) (skip - 1) k cs
      else if matchHere prevW k (c # cs)
        then 1 + countRegexMatches (isWordChar c) (length k - 1) k cs
      else countRegexMatches (isWordChar c) 0 k cs)"

fun showNat :: "nat \<Rightarrow> string" where
  "showNat n = (if n < 10 then [decimalDigits ! n]
     else showNat (n div 10) @ [decimalDigits ! (n mod 10)])"

declare showNat.simps [simp del]

text \<open>\<open>`${n}`\<close> for an integer \<open>n\<close>.\<close>

definition showInt :: "int \<Rightarrow> string" where
  "showInt i = (if i < 0 then CHR ''-'' # showNat (nat (- i)) else showNat (nat i))"

text \<open>The elements of \<open>new Set(xs)\<close> in insertion order: first occurrences.\<close>

fun uniq :: "'a list \<Rightarrow> 'a list" where
  "uniq [] = []"
| "uniq (x # xs) = x # uniq (removeAll x xs)"

subsection \<open>Normalising the items\<close>

definition buildText :: "'a Anecdote_scheme \<Rightarrow> string" where
  "buildText a = toLowerCase (title a @ '' '' @ story a @ '' '' @ anecdote_notes a @ '' '' @ location a
     @ '' '' @ storyteller a @ '' '' @ join '' '' (tags a))"

definition toMeta :: "(string \<Rightarrow> int) \<Rightarrow> Anecdote list \<Rightarrow> AnecdoteMeta list" where
  "toMeta getTime anecdotes =
     map (\<lambda>a. Anecdote.extend a
        (AnecdoteMeta.fields (getTime (date a)) (buildText a) (map toLowerCase (tags a))))
       anecdotes"

subsection \<open>Counting keywords and tags\<close>

definition countMatches :: "string \<Rightarrow> string list \<Rightarrow> nat" where
  "countMatches text keywords =
     foldl (\<lambda>count keyword.
        let normalized = toLowerCase (trim keyword) in
        if normalized = [] then count
        else if CHR '' '' \<in> set normalized
          then count + (if str_includes text normalized then 1 else 0)
        else count + min 3 (countRegexMatches False 0 normalized text))
       0 keywords"

definition countTagMatches :: "string list \<Rightarrow> string list \<Rightarrow> nat" where
  "countTagMatches tgs focus =
     (if focus = [] then 0
      else foldl (\<lambda>count tag. if tag \<in> set tgs then count + 1 else count) 0 focus)"

definition sharedTags :: "AnecdoteMeta \<Rightarrow> AnecdoteMeta \<Rightarrow> string list" where
  "sharedTags a b = filter (\<lambda>tag. tag \<in> set (m_tags b)) (m_tags a)"

definition computeImpactScore :: "AnecdoteMeta \<Rightarrow> nat" where
  "computeImpactScore a =
     countMatches (m_text a) IMPACT_KEYWORDS
     + (if ''milestone'' \<in> set (m_tags a) then 2 else 0)
     + (if ''concert'' \<in> set (m_tags a) then 2 else 0)
     + (if ''festival'' \<in> set (m_tags a) then 2 else 0)
     + (if str_includes (m_text a) ''sold out'' then 2 else 0)"

subsection \<open>Tag weights\<close>

text \<open>\<open>Number(x.toFixed(3))\<close>: the nearest multiple of 1/1000, the larger one at a tie.\<close>

definition toFixed3 :: "real \<Rightarrow> real" where
  "toFixed3 x = (if x < 0 then - (real_of_int \<lfloor>- x * 1000 + 1 / 2\<rfloor> / 1000)
     else real_of_int \<lfloor>x * 1000 + 1 / 2\<rfloor> / 1000)"

text \<open>\<open>tagDocs.set(tag, (tagDocs.get(tag) || 0) + 1)\<close>\<close>

definition bumpDoc :: "(string \<rightharpoonup> nat) \<Rightarrow> string \<Rightarrow> (string \<rightharpoonup> nat)" where
  "bumpDoc tagDocs tag = tagDocs(tag \<mapsto> (case tagDocs tag of None \<Rightarrow> 0 | Some c \<Rightarrow> c) + 1)"

definition countTagDocs :: "AnecdoteMeta list \<Rightarrow> (string \<rightharpoonup> nat)" where
  "countTagDocs items =
     foldl (\<lambda>tagDocs item. foldl bumpDoc tagDocs (uniq (m_tags item))) Map.empty items"

definition idfWeight :: "nat \<Rightarrow> nat \<Rightarrow> real" where
  "idfWeight totalDocs docCount =
     toFixed3 (ln ((real totalDocs + 1) / (real docCount + 1)) + 1)"

definition computeTagWeights :: "AnecdoteMeta list \<Rightarrow> TagWeights" where
  "computeTagWeights items =
     (let tagDocs = countTagDocs items;
          totalDocs = max 1 (length items)
      in (\<lambda>tag. case tagDocs tag of
            None \<Rightarrow> None
          | Some docCount \<Rightarrow> Some (idfWeight totalDocs docCount)))"

subsection \<open>Theme score and pairwise score\<close>

text \<open>\<open>tagWeights.get(tag) || 1\<close>: an absent tag, and a weight 0, count as 1.\<close>

definition weightOr1 :: "TagWeights \<Rightarrow> string \<Rightarrow> real" where
  "weightOr1 tagWeights tag =
     (case tagWeights tag of None \<Rightarrow> 1 | Some w \<Rightarrow> if w = 0 then 1 else w)"

definition computeThemeScore :: "AnecdoteMeta \<Rightarrow> StorylineRecipe \<Rightarrow> TagWeights \<Rightarrow> ThemeScore" where
  "computeThemeScore a recipe tagWeights =
     (let themeTagMatches = countTagMatches (m_tags a) (focusTags recipe);
          tagScore_v =
            (if themeTagMatches \<noteq> 0
             then foldl (\<lambda>sum tag. if tag \<notin> set (m_tags a) then sum
                                     else sum + weightOr1 tagWeights tag)
                    0 (focusTags recipe) * w_themeTagWeight
             else 0);
          keywordScore_v =
            real (countMatches (m_text a) (focusKeywords recipe)) * w_themeKeywordWeight;
          impactScore_v =
            (if mode recipe = Impact
             then real (computeImpactScore a) * w_impactModeMultiplier else 0)
      in \<lparr> theme_total = tagScore_v + keywordScore_v + impactScore_v,
           tagScore = tagScore_v,
           keywordScore = keywordScore_v,
           impactScore = impactScore_v \<rparr>)"

text \<open>\<open>usage.get(id) || 0\<close>\<close>

definition usageOf :: "(string \<rightharpoonup> nat) \<Rightarrow> string \<Rightarrow> nat" where
  "usageOf usage i = (case usage i of None \<Rightarrow> 0 | Some n \<Rightarrow> n)"

definition scoreConnection ::
  "AnecdoteMeta \<Rightarrow> AnecdoteMeta \<Rightarrow> StorylineRecipe \<Rightarrow> (string \<rightharpoonup> nat) \<Rightarrow> TagWeights \<Rightarrow> nat
     \<Rightarrow> StorylineScoreBreakdown" where
  "scoreConnection prev candidate recipe usage tagWeights streak =
     (let shared = sharedTags prev candidate;
          sharedTagScore_v = real (length shared) * w_sharedTag;
          storytellerScore_v =
            (if storyteller prev = storyteller candidate
             then max w_storytellerMin (w_storytellerBase - real streak * w_storytellerDecay)
             else if 2 \<le> streak then w_storytellerVarietyBonus else 0);
          locationScore_v =
            (if location prev \<noteq> [] \<and> location prev = location candidate then w_location else 0);
          timeDiff = real_of_int \<bar>m_timestamp candidate - m_timestamp prev\<bar> / real_of_int YEAR_MS;
          chronologyScore_v =
            (if m_timestamp prev \<le> m_timestamp candidate then w_chronologicalForward else 0);
          recencyScore_v =
            (if timeDiff \<le> 1 then w_timeWithinYear else 0)
            + (if timeDiff \<le> 3 then w_timeWithin3Years else 0);
          theme = computeThemeScore candidate recipe tagWeights;
          usedCount = usageOf usage (anecdote_id candidate);
          usagePenalty_v = real usedCount * w_usagePenalty;
          modePenalty_v =
            (if mode recipe = Chronological \<and> m_timestamp candidate < m_timestamp prev
             then w_chronologicalBacktrackPenalty else 0)
      in \<lparr> total = sharedTagScore_v + storytellerScore_v + locationScore_v + chronologyScore_v
               + recencyScore_v + theme_total theme - usagePenalty_v - modePenalty_v,
           sharedTagScore = sharedTagScore_v,
           storytellerScore = storytellerScore_v,
           locationScore = locationScore_v,
           chronologyScore = chronologyScore_v,
           recencyScore = recencyScore_v,
           themeScore = theme_total theme,
           usagePenalty = usagePenalty_v,
           modePenalty = modePenalty_v,
           storytellerStreak = streak,
           sharedTagList = shared,
           previousAnecdoteId = anecdote_id prev,
           candidateAnecdoteId = anecdote_id candidate \<rparr>)"

subsection \<open>Chain builder\<close>

definition startScore ::
  "AnecdoteMeta \<Rightarrow> StorylineRecipe \<Rightarrow> (string \<rightharpoonup> nat) \<Rightarrow> TagWeights \<Rightarrow> real" where
  "startScore item recipe usage tagWeights =
     theme_total (computeThemeScore item recipe tagWeights)
     + real (computeImpactScore item) * w_startImpactBoost
     - real (usageOf usage (anecdote_id item)) * w_startUsagePenalty"

text \<open>
  The pair \<open>(best, bestScore)\<close> of the loops is an option: \<open>None\<close> is \<open>best = null\<close>
  with \<open>bestScore = -Infinity\<close>, which every score exceeds.
\<close>

text \<open>The callback of \<open>items.forEach\<close> in \<open>pickStart\<close>.\<close>

definition startStep ::
  "StorylineRecipe \<Rightarrow> (string \<rightharpoonup> nat) \<Rightarrow> TagWeights \<Rightarrow> (AnecdoteMeta \<times> real) option
     \<Rightarrow> AnecdoteMeta \<Rightarrow> (AnecdoteMeta \<times> real) option" where
  "startStep recipe usage tagWeights best item =
     (let score = startScore item recipe usage tagWeights in
      case best of
        None \<Rightarrow> Some (item, score)
      | Some (b, bestScore) \<Rightarrow> if bestScore < score then Some (item, score) else best)"

definition pickStart ::
  "AnecdoteMeta list \<Rightarrow> StorylineRecipe \<Rightarrow> (string \<rightharpoonup> nat) \<Rightarrow> TagWeights \<Rightarrow> AnecdoteMeta option" where
  "pickStart items recipe usage tagWeights =
     (if mode recipe = Chronological
      then (case sort_key m_timestamp items of [] \<Rightarrow> None | first # _ \<Rightarrow> Some first)
      else (case foldl (startStep recipe usage tagWeights) None items of
              Some (best, _) \<Rightarrow> Some best
            | None \<Rightarrow> (case items of [] \<Rightarrow> None | first # _ \<Rightarrow> Some first)))"

text \<open>The narrator streak: the trailing beats of the chain told by the current narrator.\<close>

definition streakOf :: "AnecdoteMeta list \<Rightarrow> AnecdoteMeta \<Rightarrow> nat" where
  "streakOf chn current =
     length (takeWhile (\<lambda>b. storyteller b = storyteller current) (rev chn))"

text \<open>
  The body of the \<open>for (const candidate of sorted)\<close> loop on the pair
  \<open>(best, bestBreakdown)\<close>, where \<open>bestScore\<close> is the total of \<open>bestBreakdown\<close>.
\<close>

definition scanStep ::
  "AnecdoteMeta \<Rightarrow> StorylineRecipe \<Rightarrow> (string \<rightharpoonup> nat) \<Rightarrow> TagWeights \<Rightarrow> nat \<Rightarrow> string list
     \<Rightarrow> (AnecdoteMeta \<times> StorylineScoreBreakdown) option \<Rightarrow> AnecdoteMeta
     \<Rightarrow> (AnecdoteMeta \<times> StorylineScoreBreakdown) option" where
  "scanStep current recipe usage tagWeights streak used best candidate =
     (if anecdote_id candidate \<in> set used then best
      else let breakdown = scoreConnection current candidate recipe usage tagWeights streak in
        case best of
          None \<Rightarrow> Some (candidate, breakdown)
        | Some (b, bestBreakdown) \<Rightarrow>
            if total bestBreakdown < total breakdown then Some (candidate, breakdown) else best)"

definition scanCandidates ::
  "AnecdoteMeta \<Rightarrow> StorylineRecipe \<Rightarrow> (string \<rightharpoonup> nat) \<Rightarrow> TagWeights \<Rightarrow> nat \<Rightarrow> string list
     \<Rightarrow> AnecdoteMeta list \<Rightarrow> (AnecdoteMeta \<times> StorylineScoreBreakdown) option" where
  "scanCandidates current recipe usage tagWeights streak used sortedItems =
     foldl (scanStep current recipe usage tagWeights streak used) None sortedItems"

definition fallbackItem :: "AnecdoteMeta list \<Rightarrow> string list \<Rightarrow> AnecdoteMeta \<Rightarrow> AnecdoteMeta option" where
  "fallbackItem sortedItems used current =
     (case find (\<lambda>item. anecdote_id item \<notin> set used \<and> m_timestamp current \<le> m_timestamp item) sortedItems of
        Some forward \<Rightarrow> Some forward
      | None \<Rightarrow> find (\<lambda>item. anecdote_id item \<notin> set used) sortedItems)"

text \<open>\<open>used.add(x)\<close>\<close>

definition setAdd :: "'a \<Rightarrow> 'a list \<Rightarrow> 'a list" where
  "setAdd x s = (if x \<in> set s then s else s @ [x])"

type_synonym ChainState =
  "AnecdoteMeta list \<times> string list \<times> (string \<rightharpoonup> StorylineScoreBreakdown) \<times> AnecdoteMeta"

text \<open>
  One pass through the body of the \<open>while\<close> loop on the state
  \<open>(chain, used, debugByBeat, current)\<close>; \<open>None\<close> is the \<open>break\<close>.
\<close>

definition extendChain ::
  "AnecdoteMeta list \<Rightarrow> StorylineRecipe \<Rightarrow> (string \<rightharpoonup> nat) \<Rightarrow> TagWeights \<Rightarrow> ChainState
     \<Rightarrow> ChainState option" where
  "extendChain sortedItems recipe usage tagWeights st =
     (case st of (chn, used, dbg, current) \<Rightarrow>
        let streak = streakOf chn current;
            scanned = scanCandidates current recipe usage tagWeights streak used sortedItems;
            bestBreakdown = map_option snd scanned;
            chosen = (case scanned of
                        None \<Rightarrow> fallbackItem sortedItems used current
                      | Some (best, breakdown) \<Rightarrow>
                          if total breakdown < 0 then fallbackItem sortedItems used current
                          else Some best)
        in case chosen of
             None \<Rightarrow> None
           | Some best \<Rightarrow>
               Some (chn @ [best],
                     setAdd (anecdote_id best) used,
                     (case bestBreakdown of
                        None \<Rightarrow> dbg
                      | Some breakdown \<Rightarrow> dbg(anecdote_id best \<mapsto> breakdown)),
                     best))"

function chainLoop ::
  "AnecdoteMeta list \<Rightarrow> StorylineRecipe \<Rightarrow> int \<Rightarrow> (string \<rightharpoonup> nat) \<Rightarrow> TagWeights \<Rightarrow> ChainState
     \<Rightarrow> ChainState" where
  "chainLoop sortedItems recipe targetLength usage tagWeights (chn, used, dbg, current) =
     (if int (length chn) < targetLength \<and> length used < length sortedItems
      then (case extendChain sortedItems recipe usage tagWeights (chn, used, dbg, current) of
              None \<Rightarrow> (chn, used, dbg, current)
            | Some st' \<Rightarrow> chainLoop sortedItems recipe targetLength usage tagWeights st')
      else (chn, used, dbg, current))"
  by pat_completeness auto
termination
proof (relation "measure (\<lambda>(sortedItems, recipe, targetLength, usage, tagWeights, chn, used, dbg, current).
                   nat (targetLength - int (length chn)))")
  show "wf (measure (\<lambda>(sortedItems, recipe, targetLength, usage, tagWeights, chn, used, dbg, current).
                   nat (targetLength - int (length chn))))"
    by simp
next
  fix sortedItems :: "AnecdoteMeta list" and recipe :: StorylineRecipe and targetLength :: int
    and usage :: "string \<rightharpoonup> nat" and tagWeights :: TagWeights
    and chn :: "AnecdoteMeta list" and used :: "string list"
    and dbg :: "string \<rightharpoonup> StorylineScoreBreakdown" and current :: AnecdoteMeta
    and st' :: ChainState
  assume guard: "int (length chn) < targetLength \<and> length used < length sortedItems"
    and step: "extendChain sortedItems recipe usage tagWeights (chn, used, dbg, current) = Some st'"
  from step obtain best where "fst st' = chn @ [best]"
    by (auto simp: extendChain_def Let_def split: option.splits)
  then have "length (fst st') = Suc (length chn)"
    by simp
  with guard show "((sortedItems, recipe, targetLength, usage, tagWeights, st'),
                    (sortedItems, recipe, targetLength, usage, tagWeights, chn, used, dbg, current))
                   \<in> measure (\<lambda>(sortedItems, recipe, targetLength, usage, tagWeights, chn, used, dbg, current).
                        nat (targetLength - int (length chn)))"
    by (cases st') auto
qed

declare chainLoop.simps [simp del]

definition buildChain ::
  "AnecdoteMeta list \<Rightarrow> StorylineRecipe \<Rightarrow> int \<Rightarrow> (string \<rightharpoonup> nat) \<Rightarrow> TagWeights
     \<Rightarrow> ChainBuildResult" where
  "buildChain items recipe targetLength usage tagWeights =
     (if items = [] then \<lparr> chain = [], debugByBeat = Map.empty \<rparr>
      else let sortedItems = sort_key m_timestamp items in
        case pickStart sortedItems recipe usage tagWeights of
          None \<Rightarrow> \<lparr> chain = [], debugByBeat = Map.empty \<rparr>
        | Some current \<Rightarrow>
            (case chainLoop sortedItems recipe targetLength usage tagWeights
                    ([current], setAdd (anecdote_id current) [], Map.empty, current) of
               (chn, used, dbg, cur) \<Rightarrow> \<lparr> chain = chn, debugByBeat = dbg \<rparr>))"

subsection \<open>Narrative renderer\<close>

text \<open>\<open>s.lastIndexOf(c)\<close>, \<open>-1\<close> when \<open>c\<close> does not occur.\<close>

definition lastIndexOf :: "char \<Rightarrow> string \<Rightarrow> int" where
  "lastIndexOf c s =
     (case find (\<lambda>i. s ! i = c) (rev [0 ..< length s]) of None \<Rightarrow> - 1 | Some i \<Rightarrow> int i)"

definition truncate :: "string \<Rightarrow> nat \<Rightarrow> string" where
  "truncate text mx =
     (if length text \<le> mx then text
      else let trimmed = take (mx - 3) text;
               lastSpace = lastIndexOf CHR '' '' trimmed
           in take (if 40 < lastSpace then nat lastSpace else length trimmed) trimmed @ ''...'')"

definition buildConnection :: "AnecdoteMeta \<Rightarrow> AnecdoteMeta \<Rightarrow> StorylineConnection" where
  "buildConnection prev nxt =
     (let shared = sharedTags prev nxt in
      if shared \<noteq> [] then \<lparr> connection_type = TagLink, label = ''#'' @ hd shared \<rparr>
      else if storyteller prev = storyteller nxt
        then \<lparr> connection_type = StorytellerLink, label = storyteller prev \<rparr>
      else if location prev \<noteq> [] \<and> location prev = location nxt
        then \<lparr> connection_type = LocationLink, label = location prev \<rparr>
      else \<lparr> connection_type = ChronologyLink,
             label = showInt (year prev) @ '' to '' @ showInt (year nxt) \<rparr>)"

text \<open>The apostrophe (39) and the em dash (U+2014, here its three UTF-8 bytes) of the templates.\<close>

definition apostrophe :: string where
  "apostrophe = [CHR 0x27]"

definition emDash :: string where
  "emDash = [CHR 0xE2, CHR 0x80, CHR 0x94]"

definition atLocation :: "AnecdoteMeta \<Rightarrow> string" where
  "atLocation beat = (if location beat \<noteq> [] then '' at '' @ location beat else [])"

definition buildVoiceover :: "StorylineStyle \<Rightarrow> AnecdoteMeta \<Rightarrow> nat \<Rightarrow> nat \<Rightarrow> string" where
  "buildVoiceover style beat index totalBeats =
     (let smry = truncate (story beat) 120;
          loc = atLocation beat;
          isLast = (int index = int totalBeats - 1)
      in case style of
        Style50cent \<Rightarrow>
          (if index = 0 then ''Back in '' @ showInt (year beat) @ loc @ '', it started with ''
                               @ toLowerCase (title beat) @ ''.''
           else if isLast then ''By '' @ showInt (year beat) @ '', '' @ title beat
                               @ '' was proof the city had changed.''
           else title beat @ loc @ ''. '' @ smry)
      | Jesse \<Rightarrow>
          (if index = 0 then ''In '' @ showInt (year beat) @ loc
                               @ '', a quiet shift started to feel inevitable.''
           else if isLast then ''By '' @ showInt (year beat)
                               @ '', the story is no longer about a moment but a movement.''
           else storyteller beat @ '' remembers '' @ toLowerCase (title beat) @ ''. '' @ smry)
      | Coogler \<Rightarrow>
          (if index = 0 then ''In '' @ showInt (year beat) @ loc @ '', a spark caught'' @ emDash
                               @ ''small, personal, and loud.''
           else if isLast then ''By '' @ showInt (year beat)
                               @ '', the whole city could feel the change.''
           else title beat @ '' carries the momentum. '' @ smry)
      | Hybrid \<Rightarrow>
          (if index = 0 then ''Seattle didn'' @ apostrophe @ ''t plan for this. '' @ title beat
                               @ '' lit the fuse in '' @ showInt (year beat) @ ''.''
           else if isLast then ''The story keeps evolving after '' @ showInt (year beat) @ ''.''
           else title beat @ ''. '' @ smry))"

definition buildOpeningLine :: "StorylineStyle \<Rightarrow> AnecdoteMeta \<Rightarrow> string" where
  "buildOpeningLine style first =
     (let loc = atLocation first in
      case style of
        Style50cent \<Rightarrow> ''This is how the city started moving in '' @ showInt (year first) @ loc @ ''.''
      | Jesse \<Rightarrow> ''A sound crossed oceans and settled into Seattle by '' @ showInt (year first) @ ''.''
      | Coogler \<Rightarrow> ''In '' @ showInt (year first) @ loc @ '', a new rhythm found its people.''
      | Hybrid \<Rightarrow> ''In '' @ showInt (year first) @ loc @ '', the timeline sparks.'')"

definition buildClosingLine :: "StorylineStyle \<Rightarrow> AnecdoteMeta \<Rightarrow> string" where
  "buildClosingLine style lst =
     (case style of
        Style50cent \<Rightarrow> ''Now the rhythm is part of the city'' @ apostrophe @ ''s DNA.''
      | Jesse \<Rightarrow> ''The movement keeps writing its next chapter.''
      | Coogler \<Rightarrow> ''The story lands, but the music keeps moving.''
      | Hybrid \<Rightarrow> ''The beat keeps moving after '' @ showInt (year lst) @ ''.'')"

text \<open>The callback of \<open>chain.map((beat, index) => ...)\<close> in \<open>buildStoryline\<close>.\<close>

definition buildBeat ::
  "StorylineRecipe \<Rightarrow> AnecdoteMeta list \<Rightarrow> (string \<rightharpoonup> StorylineScoreBreakdown) \<Rightarrow> nat
     \<Rightarrow> AnecdoteMeta \<Rightarrow> StorylineBeat" where
  "buildBeat recipe chn dbg index beat =
     (let prev = (if 0 < index then Some (chn ! (index - 1)) else None) in
      \<lparr> beat_id = recipe_id recipe @ ''-'' @ showNat (index + 1),
        anecdote = beat,
        summary = truncate (story beat) 140,
        voiceover = buildVoiceover (recipe_style recipe) beat index (length chn),
        connection = (case prev of Some p \<Rightarrow> Some (buildConnection p beat) | None \<Rightarrow> None),
        intensity = min 5 (max 1 \<lfloor>(1 + real (computeImpactScore beat) / 2) + 1 / 2\<rfloor>),
        debug = (case prev of Some p \<Rightarrow> dbg (anecdote_id beat) | None \<Rightarrow> None) \<rparr>)"

text \<open>
  \<open>buildStoryline\<close> reads \<open>chain[0]\<close> and the last element: on an empty chain
  \<open>buildOpeningLine\<close> reads a field of \<open>undefined\<close> and raises.
\<close>

definition buildStoryline ::
  "StorylineRecipe \<Rightarrow> AnecdoteMeta list \<Rightarrow> (string \<rightharpoonup> StorylineScoreBreakdown)
     \<Rightarrow> error + Storyline" where
  "buildStoryline recipe chn dbg =
     (case chn of
        [] \<Rightarrow> Inl TypeError
      | first # _ \<Rightarrow>
          Inr \<lparr> storyline_id = recipe_id recipe,
                storyline_title = recipe_title recipe,
                storyline_description = recipe_description recipe,
                storyline_style = recipe_style recipe,
                tone = STYLE_TONE (recipe_style recipe),
                openingLine = buildOpeningLine (recipe_style recipe) first,
                closingLine = buildClosingLine (recipe_style recipe) (last chn),
                beats = map (\<lambda>index. buildBeat recipe chn dbg index (chn ! index))
                          [0 ..< length chn],
                storyline_tags = uniq (concat (map tags chn)),
                timeframe = \<lparr> tf_start = date first,
                              tf_end = date (last chn),
                              years = sort (uniq (map year chn)) \<rparr> \<rparr>)"

subsection \<open>Recipe catalogue\<close>

text \<open>\<open>counts[tag] = (counts[tag] || 0) + 1\<close> on a plain object: the keys in insertion order.\<close>

fun bumpCount :: "string \<Rightarrow> (string \<times> nat) list \<Rightarrow> (string \<times> nat) list" where
  "bumpCount tag [] = [(tag, 1)]"
| "bumpCount tag ((k, v) # kvs) =
     (if k = tag then (k, v + 1) # kvs else (k, v) # bumpCount tag kvs)"

definition isDigit :: "char \<Rightarrow> bool" where
  "isDigit c = (c \<in> set decimalDigits)"

definition digitsValue :: "string \<Rightarrow> nat" where
  "digitsValue s =
     foldl (\<lambda>n c. 10 * n + length (takeWhile (\<lambda>d. d \<noteq> c) decimalDigits)) 0 s"

text \<open>
  \<open>Object.entries\<close> lists the keys that are array indices (canonical decimal numerals
  below \<open>2^32 - 1\<close>) first, in ascending numeric order, then the other keys in insertion
  order. Tags that name a member of \<open>Object.prototype\<close> are outside the model.
\<close>

definition isArrayIndex :: "string \<Rightarrow> bool" where
  "isArrayIndex s =
     (s \<noteq> [] \<and> list_all isDigit s \<and> (s = ''0'' \<or> hd s \<noteq> CHR ''0'')
      \<and> length s \<le> 10 \<and> digitsValue s < 4294967295)"

definition objectEntries :: "(string \<times> nat) list \<Rightarrow> (string \<times> nat) list" where
  "objectEntries kvs =
     sort_key (\<lambda>kv. digitsValue (fst kv)) (filter (\<lambda>kv. isArrayIndex (fst kv)) kvs)
     @ filter (\<lambda>kv. \<not> isArrayIndex (fst kv)) kvs"

definition getTopTags :: "AnecdoteMeta list \<Rightarrow> nat \<Rightarrow> string list" where
  "getTopTags items limit =
     (let counts = foldl (\<lambda>counts item. foldl (\<lambda>counts tag. bumpCount tag counts) counts (m_tags item))
                     [] items
      in map fst (take limit (sort_key (\<lambda>kv. - int (snd kv)) (objectEntries counts))))"

definition recipes :: "string list \<Rightarrow> StorylineRecipe list" where
  "recipes topTags =
     [ \<lparr> recipe_id = ''chronicle'',
         recipe_title = ''Origins to Spotlight'',
         recipe_description = ''A straight-line rise from the first rooms to the biggest stages.'',
         recipe_style = Jesse,
         mode = Chronological,
         focusTags = topTags,
         focusKeywords = [] \<rparr>,
       \<lparr> recipe_id = ''nightlife'',
         recipe_title = ''Nightlife Pulse'',
         recipe_description = ''The late-night circuit that kept the rhythm alive.'',
         recipe_style = Style50cent,
         mode = TagMode,
         focusTags = uniq (NIGHTLIFE_TAGS @ topTags),
         focusKeywords = NIGHTLIFE_KEYWORDS \<rparr>,
       \<lparr> recipe_id = ''breakthrough'',
         recipe_title = ''Breakthrough Moments'',
         recipe_description = ''When the scene broke past its borders and stayed there.'',
         recipe_style = Hybrid,
         mode = Impact,
         focusTags = topTags,
         focusKeywords = IMPACT_KEYWORDS \<rparr>,
       \<lparr> recipe_id = ''cinematic'',
         recipe_title = ''Heat & Hope'',
         recipe_description =
           ''A cinematic rise shaped by grit, joy, and the people who held it together.'',
         recipe_style = Coogler,
         mode = Impact,
         focusTags = topTags,
         focusKeywords = IMPACT_KEYWORDS @ COMMUNITY_KEYWORDS \<rparr> ]"

definition fallbackRecipe :: "string list \<Rightarrow> StorylineRecipe" where
  "fallbackRecipe topTags =
     \<lparr> recipe_id = ''core'',
       recipe_title = ''The Core Story'',
       recipe_description = ''A quick-cut run through the key memories so far.'',
       recipe_style = Hybrid,
       mode = Chronological,
       focusTags = topTags,
       focusKeywords = [] \<rparr>"

subsection \<open>Storyline assembler\<close>

text \<open>\<open>Math.min(8, Math.max(4, Math.round(items.length * 0.45)))\<close>\<close>

definition normalTargetLength :: "nat \<Rightarrow> int" where
  "normalTargetLength n = min 8 (max 4 \<lfloor>real n * (45 / 100) + 1 / 2\<rfloor>)"

text \<open>The three variables the \<open>recipes.forEach\<close> callback updates.\<close>

record RunState =
  usage_of :: "string \<rightharpoonup> nat"
  storylines :: "Storyline list"
  signatures :: "string list"

text \<open>\<open>usage.set(item.id, (usage.get(item.id) || 0) + 1)\<close>\<close>

definition bumpUsage :: "(string \<rightharpoonup> nat) \<Rightarrow> AnecdoteMeta \<Rightarrow> (string \<rightharpoonup> nat)" where
  "bumpUsage usage item = usage(anecdote_id item \<mapsto> usageOf usage (anecdote_id item) + 1)"

definition signatureOf :: "AnecdoteMeta list \<Rightarrow> string" where
  "signatureOf chn = join ''-'' (map anecdote_id chn)"

text \<open>The callback of \<open>recipes.forEach\<close>: one recipe on the current state.\<close>

definition runRecipe ::
  "AnecdoteMeta list \<Rightarrow> int \<Rightarrow> TagWeights \<Rightarrow> StorylineRecipe \<Rightarrow> RunState \<Rightarrow> error + RunState" where
  "runRecipe items targetLength tagWeights recipe st =
     (let built = buildChain items recipe targetLength (usage_of st) tagWeights in
      if length (chain built) < 3 then Inr st
      else let signature = signatureOf (chain built) in
        if signature \<in> set (signatures st) then Inr st
        else case buildStoryline recipe (chain built) (debugByBeat built) of
               Inl e \<Rightarrow> Inl e
             | Inr storyline \<Rightarrow>
                 Inr \<lparr> usage_of = foldl bumpUsage (usage_of st) (chain built),
                       storylines = storylines st @ [storyline],
                       signatures = setAdd signature (signatures st) \<rparr>)"

fun runRecipes ::
  "AnecdoteMeta list \<Rightarrow> int \<Rightarrow> TagWeights \<Rightarrow> StorylineRecipe list \<Rightarrow> RunState \<Rightarrow> error + RunState" where
  "runRecipes items targetLength tagWeights [] st = Inr st"
| "runRecipes items targetLength tagWeights (recipe # rest) st =
     (case runRecipe items targetLength tagWeights recipe st of
        Inl e \<Rightarrow> Inl e
      | Inr st' \<Rightarrow> runRecipes items targetLength tagWeights rest st')"

definition initialRun :: RunState where
  "initialRun = \<lparr> usage_of = Map.empty, storylines = [], signatures = [] \<rparr>"

text \<open>
  \<open>generateStorylines\<close> is split in two: \<open>assembleStorylines\<close> is its body from the
  recipe list on, as a function of the three values derived first (\<open>items\<close>, \<open>topTags\<close>,
  \<open>tagWeights\<close>).
\<close>

definition assembleStorylines ::
  "AnecdoteMeta list \<Rightarrow> string list \<Rightarrow> TagWeights \<Rightarrow> error + Storyline list" where
  "assembleStorylines items topTags tagWeights =
     (let targetLength = normalTargetLength (length items) in
      case runRecipes items targetLength tagWeights (recipes topTags) initialRun of
        Inl e \<Rightarrow> Inl e
      | Inr st \<Rightarrow>
          if storylines st = [] \<and> items \<noteq> []
          then let built = buildChain items (fallbackRecipe topTags)
                             (min 6 (int (length items))) (usage_of st) tagWeights
               in if chain built \<noteq> []
                  then (case buildStoryline (fallbackRecipe topTags) (chain built)
                               (debugByBeat built) of
                          Inl e \<Rightarrow> Inl e
                        | Inr storyline \<Rightarrow> Inr (storylines st @ [storyline]))
                  else Inr (storylines st)
          else Inr (storylines st))"

definition generateStorylines :: "(string \<Rightarrow> int) \<Rightarrow> Anecdote list \<Rightarrow> error + Storyline list" where
  "generateStorylines getTime anecdotes =
     (if anecdotes = [] then Inr []
      else let items = toMeta getTime anecdotes;
               topTags = getTopTags items 6;
               tagWeights = computeTagWeights items
           in assembleStorylines items topTags tagWeights)"

subsection \<open>Example inputs\<close>

text \<open>
  \<open>exampleClock\<close> is \<open>new Date(d).getTime()\<close> on the dates of the examples: a date-only
  ISO string is midnight UTC, in milliseconds since 1970.
\<close>

definition exampleClock :: "string \<Rightarrow> int" where
  "exampleClock d =
     (if d = ''2000-01-01'' then 946684800000
      else if d = ''2000-01-02'' then 946771200000
      else if d = ''2005-01-01'' then 1104537600000
      else if d = ''2008-01-01'' then 1199145600000
      else if d = ''2010-01-01'' then 1262304000000
      else if d = ''2020-01-01'' then 1577836800000
      else 0)"

definition anecdoteOf ::
  "string \<Rightarrow> string \<Rightarrow> int \<Rightarrow> string \<Rightarrow> string \<Rightarrow> string \<Rightarrow> string list \<Rightarrow> Anecdote" where
  "anecdoteOf i d y t narrator place tgs =
     \<lparr> anecdote_id = i, date = d, year = y, title = t, story = [], storyteller = narrator,
       location = place, anecdote_notes = [], media = [], tags = tgs,
       createdAt = 0, updatedAt = 0 \<rparr>"

text \<open>
  Four anecdotes by four narrators; the first and the last share a location, the two in
  between are more than a year away from every other one.
\<close>

definition backtrackAnecdotes :: "Anecdote list" where
  "backtrackAnecdotes =
     [anecdoteOf ''s'' ''2000-01-01'' 2000 [] ''s'' ''L'' [],
      anecdoteOf ''a'' ''2005-01-01'' 2005 [] ''a'' [] [],
      anecdoteOf ''b'' ''2008-01-01'' 2008 [] ''b'' [] [],
      anecdoteOf ''c'' ''2010-01-01'' 2010 [] ''c'' ''L'' []]"

text \<open>Two anecdotes with the same tag and narrator, one day apart.\<close>

definition twinAnecdotes :: "Anecdote list" where
  "twinAnecdotes =
     [anecdoteOf ''t1'' ''2000-01-01'' 2000 [] ''n'' [] [''x''],
      anecdoteOf ''t2'' ''2000-01-02'' 2000 [] ''n'' [] [''x'']]"



text \<open>Four anecdotes, two of which have the ids \<open>a-a\<close> and \<open>a\<close>.\<close>

definition dashAnecdotes :: "Anecdote list" where
  "dashAnecdotes =
     [anecdoteOf ''a-a'' ''2000-01-01'' 2000 [] [] [] [],
      anecdoteOf ''a'' ''2000-01-02'' 2000 ''dj'' [] [] [],
      anecdoteOf ''x'' ''2010-01-01'' 2010 [] ''x'' [] [],
      anecdoteOf ''y'' ''2020-01-01'' 2020 [] ''x'' [] []]"

subsection \<open>Auxiliary predicates of the proofs\<close>

text \<open>
  The invariant of the \<open>while\<close> loop of \<open>buildChain\<close>: the chain ends in the current beat,
  \<open>used\<close> holds the ids of the chain, which are distinct, and every beat after the first
  has a recorded breakdown whose previous id is the id of the beat before it.
\<close>

definition chainInv :: "AnecdoteMeta list \<Rightarrow> ChainState \<Rightarrow> bool" where
  "chainInv sortedItems st =
     (case st of (chn, used, dbg, current) \<Rightarrow>
        chn \<noteq> [] \<and> last chn = current \<and> used = map anecdote_id chn \<and> distinct used
        \<and> set chn \<subseteq> set sortedItems
        \<and> (\<forall>i. 0 < i \<and> i < length chn \<longrightarrow>
              (\<exists>bd. dbg (anecdote_id (chn ! i)) = Some bd
                 \<and> previousAnecdoteId bd = anecdote_id (chn ! (i - 1))
                 \<and> 1 \<le> storytellerStreak bd)))"


text \<open>
  \<open>emittedBy items tagWeights minLength recipe s\<close>: the storyline \<open>s\<close> is the rendering of
  a chain that \<open>buildChain\<close> returns for the recipe on these items, with at least
  \<open>minLength\<close> beats.
\<close>

definition emittedBy ::
  "AnecdoteMeta list \<Rightarrow> TagWeights \<Rightarrow> nat \<Rightarrow> StorylineRecipe \<Rightarrow> Storyline \<Rightarrow> bool" where
  "emittedBy items tagWeights minLength recipe s =
     (\<exists>usage targetLength.
        minLength \<le> length (chain (buildChain items recipe targetLength usage tagWeights))
        \<and> buildStoryline recipe (chain (buildChain items recipe targetLength usage tagWeights))
             (debugByBeat (buildChain items recipe targetLength usage tagWeights)) = Inr s)"



text \<open>The document frequency of a tag: the number of items that contain it.\<close>

definition docFreq :: "AnecdoteMeta list \<Rightarrow> string \<Rightarrow> nat" where
  "docFreq items tag = length (filter (\<lambda>item. tag \<in> set (m_tags item)) items)"

section \<open>Properties\<close>

lemmas score_weights =
  w_sharedTag_def w_storytellerBase_def w_storytellerMin_def w_storytellerDecay_def
  w_storytellerVarietyBonus_def w_location_def w_chronologicalForward_def
  w_timeWithinYear_def w_timeWithin3Years_def w_usagePenalty_def
  w_chronologicalBacktrackPenalty_def w_themeTagWeight_def w_themeKeywordWeight_def
  w_impactModeMultiplier_def w_startImpactBoost_def w_startUsagePenalty_def

subsection \<open>Picking the start and the next beat\<close>

lemma startStep_cases:
  "startStep recipe usage tw best item = best \<and> best \<noteq> None
   \<or> (\<exists>s. startStep recipe usage tw best item = Some (item, s))"
  by (cases best) (auto simp: startStep_def Let_def)

lemma pickStart_fold:
  "acc \<noteq> None \<or> xs \<noteq> [] \<Longrightarrow>
   \<exists>b s. foldl (startStep recipe usage tw) acc xs = Some (b, s) \<and> (b \<in> set xs \<or> acc = Some (b, s))"
proof (induction xs arbitrary: acc)
  case Nil
  then show ?case by auto
next
  case (Cons x xs)
  let ?acc' = "startStep recipe usage tw acc x"
  have step: "?acc' = acc \<and> acc \<noteq> None \<or> (\<exists>s. ?acc' = Some (x, s))"
    by (rule startStep_cases)
  then have "?acc' \<noteq> None \<or> xs \<noteq> []" by auto
  from Cons.IH [OF this] obtain b s where
    r: "foldl (startStep recipe usage tw) ?acc' xs = Some (b, s)"
    and d: "b \<in> set xs \<or> ?acc' = Some (b, s)"
    by blast
  from d step have "b \<in> set (x # xs) \<or> acc = Some (b, s)" by auto
  with r show ?case by simp
qed

lemma pickStart_Some:
  assumes "items \<noteq> []"
  shows "\<exists>c. pickStart items recipe usage tw = Some c \<and> c \<in> set items"
proof (cases "mode recipe = Chronological")
  case True
  from assms have "sort_key m_timestamp items \<noteq> []"
    by (metis length_sort length_0_conv)
  then obtain f fs where s: "sort_key m_timestamp items = f # fs"
    by (cases "sort_key m_timestamp items") auto
  then have "f \<in> set (sort_key m_timestamp items)" by simp
  then have "f \<in> set items" by simp
  with True s show ?thesis by (simp add: pickStart_def)
next
  case False
  from pickStart_fold [of None items recipe usage tw] assms
  obtain b s where "foldl (startStep recipe usage tw) None items = Some (b, s)"
    and "b \<in> set items"
    by auto
  with False show ?thesis by (simp add: pickStart_def)
qed

lemma scanStep_cases:
  "scanStep current recipe usage tw streak used best x = best
   \<or> (anecdote_id x \<notin> set used
       \<and> scanStep current recipe usage tw streak used best x
           = Some (x, scoreConnection current x recipe usage tw streak))"
  by (cases best) (auto simp: scanStep_def Let_def)

lemma scanStep_unused:
  "anecdote_id x \<notin> set used \<Longrightarrow> scanStep current recipe usage tw streak used best x \<noteq> None"
  by (cases best) (auto simp: scanStep_def Let_def)

lemma scan_Some:
  "foldl (scanStep current recipe usage tw streak used) acc xs = Some (b, bd)
   \<Longrightarrow> acc = Some (b, bd)
       \<or> (b \<in> set xs \<and> anecdote_id b \<notin> set used
           \<and> bd = scoreConnection current b recipe usage tw streak)"
proof (induction xs arbitrary: acc)
  case Nil
  then show ?case by simp
next
  case (Cons x xs)
  let ?acc' = "scanStep current recipe usage tw streak used acc x"
  from Cons.prems have "foldl (scanStep current recipe usage tw streak used) ?acc' xs = Some (b, bd)"
    by simp
  from Cons.IH [OF this] scanStep_cases [of current recipe usage tw streak used acc x]
  show ?case by auto
qed

lemma scan_None:
  "foldl (scanStep current recipe usage tw streak used) acc xs = None
   \<Longrightarrow> acc = None \<and> (\<forall>x\<in>set xs. anecdote_id x \<in> set used)"
proof (induction xs arbitrary: acc)
  case Nil
  then show ?case by simp
next
  case (Cons x xs)
  let ?acc' = "scanStep current recipe usage tw streak used acc x"
  from Cons.prems have "foldl (scanStep current recipe usage tw streak used) ?acc' xs = None"
    by simp
  from Cons.IH [OF this] have a: "?acc' = None" and r: "\<forall>x\<in>set xs. anecdote_id x \<in> set used"
    by auto
  from a have "anecdote_id x \<in> set used"
    using scanStep_unused by blast
  moreover from a scanStep_cases [of current recipe usage tw streak used acc x] have "acc = None"
    by auto
  ultimately show ?case using r by simp
qed

lemma scanCandidates_Some:
  "scanCandidates current recipe usage tw streak used sortedItems = Some (b, bd)
   \<Longrightarrow> b \<in> set sortedItems \<and> anecdote_id b \<notin> set used
       \<and> bd = scoreConnection current b recipe usage tw streak"
  unfolding scanCandidates_def by (drule scan_Some) simp

lemma scanCandidates_None:
  "scanCandidates current recipe usage tw streak used sortedItems = None
   \<Longrightarrow> \<forall>x\<in>set sortedItems. anecdote_id x \<in> set used"
  unfolding scanCandidates_def by (drule scan_None) simp

lemma fallbackItem_Some:
  "fallbackItem sortedItems used current = Some b
   \<Longrightarrow> b \<in> set sortedItems \<and> anecdote_id b \<notin> set used"
  unfolding fallbackItem_def
  by (cases "find (\<lambda>item. anecdote_id item \<notin> set used \<and> m_timestamp current \<le> m_timestamp item) sortedItems")
     (auto simp: find_Some_iff)

lemma fallbackItem_None:
  "fallbackItem sortedItems used current = None
   \<Longrightarrow> \<forall>x\<in>set sortedItems. anecdote_id x \<in> set used"
  unfolding fallbackItem_def
  by (cases "find (\<lambda>item. anecdote_id item \<notin> set used \<and> m_timestamp current \<le> m_timestamp item) sortedItems")
     (auto simp: find_None_iff)

lemma fallbackItem_all_used:
  assumes "\<forall>x\<in>set sortedItems. anecdote_id x \<in> set used"
  shows "fallbackItem sortedItems used current = None"
proof -
  from assms have
    "find (\<lambda>item. anecdote_id item \<notin> set used \<and> m_timestamp current \<le> m_timestamp item) sortedItems = None"
    "find (\<lambda>item. anecdote_id item \<notin> set used) sortedItems = None"
    by (simp_all add: find_None_iff)
  then show ?thesis by (simp add: fallbackItem_def)
qed

subsection \<open>One pass of the loop, and the loop\<close>

lemma extendChain_Some:
  assumes "extendChain sortedItems recipe usage tw (chn, used, dbg, current) = Some st'"
  shows "\<exists>best scored.
           st' = (chn @ [best], used @ [anecdote_id best],
                  dbg(anecdote_id best \<mapsto>
                        scoreConnection current scored recipe usage tw (streakOf chn current)),
                  best)
           \<and> best \<in> set sortedItems \<and> anecdote_id best \<notin> set used
           \<and> scored \<in> set sortedItems \<and> anecdote_id scored \<notin> set used"
proof (cases "scanCandidates current recipe usage tw (streakOf chn current) used sortedItems")
  case None
  then have "\<forall>x\<in>set sortedItems. anecdote_id x \<in> set used"
    by (rule scanCandidates_None)
  then have "fallbackItem sortedItems used current = None"
    by (rule fallbackItem_all_used)
  with None assms show ?thesis
    by (simp add: extendChain_def Let_def)
next
  case (Some p)
  obtain scored bd where p: "p = (scored, bd)" by (cases p)
  from Some p have sc: "scored \<in> set sortedItems" "anecdote_id scored \<notin> set used"
    "bd = scoreConnection current scored recipe usage tw (streakOf chn current)"
    using scanCandidates_Some by blast+
  let ?chosen = "if total bd < 0 then fallbackItem sortedItems used current else Some scored"
  from Some p have scn:
    "scanCandidates current recipe usage tw (streakOf chn current) used sortedItems = Some (scored, bd)"
    by simp
  have e: "(case ?chosen of None \<Rightarrow> None
      | Some best \<Rightarrow> Some (chn @ [best], setAdd (anecdote_id best) used,
                           dbg(anecdote_id best \<mapsto> bd), best)) = Some st'"
    using assms by (simp add: extendChain_def Let_def scn cong: option.case_cong if_cong)
  then obtain best where c: "?chosen = Some best"
    and st': "st' = (chn @ [best], setAdd (anecdote_id best) used, dbg(anecdote_id best \<mapsto> bd), best)"
    by (cases ?chosen) auto
  from c have "best = scored \<or> fallbackItem sortedItems used current = Some best"
    by (cases "total bd < 0") auto
  with sc have "best \<in> set sortedItems \<and> anecdote_id best \<notin> set used"
    using fallbackItem_Some by blast
  with st' sc show ?thesis
    by (auto simp: setAdd_def)
qed

lemma extendChain_None:
  assumes "extendChain sortedItems recipe usage tw (chn, used, dbg, current) = None"
  shows "\<forall>x\<in>set sortedItems. anecdote_id x \<in> set used"
proof (cases "scanCandidates current recipe usage tw (streakOf chn current) used sortedItems")
  case None
  then show ?thesis by (rule scanCandidates_None)
next
  case (Some p)
  obtain scored bd where p: "p = (scored, bd)" by (cases p)
  let ?chosen = "if total bd < 0 then fallbackItem sortedItems used current else Some scored"
  from Some p have scn:
    "scanCandidates current recipe usage tw (streakOf chn current) used sortedItems = Some (scored, bd)"
    by simp
  have "(case ?chosen of None \<Rightarrow> None
      | Some best \<Rightarrow> Some (chn @ [best], setAdd (anecdote_id best) used,
                           dbg(anecdote_id best \<mapsto> bd), best)) = None"
    using assms by (simp add: extendChain_def Let_def scn cong: option.case_cong if_cong)
  then have "?chosen = None" by (cases ?chosen) auto
  then have "fallbackItem sortedItems used current = None"
    by (cases "total bd < 0") auto
  then show ?thesis by (rule fallbackItem_None)
qed

lemma streakOf_pos: "chn \<noteq> [] \<Longrightarrow> last chn = current \<Longrightarrow> 1 \<le> streakOf chn current"
  by (cases chn rule: rev_cases) (auto simp: streakOf_def)

lemma chainInv_step:
  assumes inv: "chainInv sortedItems (chn, used, dbg, current)"
    and step: "extendChain sortedItems recipe usage tw (chn, used, dbg, current) = Some st'"
  shows "chainInv sortedItems st'"
proof -
  from extendChain_Some [OF step] obtain best scored where
    st': "st' = (chn @ [best], used @ [anecdote_id best],
                 dbg(anecdote_id best \<mapsto>
                       scoreConnection current scored recipe usage tw (streakOf chn current)),
                 best)"
    and best: "best \<in> set sortedItems" "anecdote_id best \<notin> set used"
    by blast
  from inv have ne: "chn \<noteq> []" and lst: "last chn = current"
    and used: "used = map anecdote_id chn" and dist: "distinct used"
    and sub: "set chn \<subseteq> set sortedItems"
    and dbg: "\<And>i. 0 < i \<Longrightarrow> i < length chn \<Longrightarrow>
              \<exists>bd. dbg (anecdote_id (chn ! i)) = Some bd
                 \<and> previousAnecdoteId bd = anecdote_id (chn ! (i - 1))
                 \<and> 1 \<le> storytellerStreak bd"
    by (auto simp: chainInv_def)
  let ?bd = "scoreConnection current scored recipe usage tw (streakOf chn current)"
  let ?dbg' = "dbg(anecdote_id best \<mapsto> ?bd)"
  have new: "\<exists>bd. ?dbg' (anecdote_id ((chn @ [best]) ! i)) = Some bd
                 \<and> previousAnecdoteId bd = anecdote_id ((chn @ [best]) ! (i - 1))
                 \<and> 1 \<le> storytellerStreak bd"
    if i: "0 < i" "i < length (chn @ [best])" for i
  proof (cases "i < length chn")
    case True
    then have "chn ! i \<in> set chn" by simp
    then have "anecdote_id (chn ! i) \<in> set used" using used by simp
    with best have "anecdote_id (chn ! i) \<noteq> anecdote_id best" by metis
    moreover from True have "i - 1 < length chn" by simp
    ultimately show ?thesis
      using dbg [OF i(1) True] True by (simp add: nth_append)
  next
    case False
    with i have il: "i = length chn" by simp
    from ne lst have "anecdote_id (chn ! (length chn - 1)) = anecdote_id current"
      by (simp add: last_conv_nth)
    moreover have "previousAnecdoteId ?bd = anecdote_id current"
      by (simp add: scoreConnection_def Let_def)
    moreover have "storytellerStreak ?bd = streakOf chn current"
      by (simp add: scoreConnection_def Let_def)
    ultimately show ?thesis
      using il ne streakOf_pos [OF ne lst] by (simp add: nth_append)
  qed
  from ne lst used dist sub best new show ?thesis
    unfolding st' chainInv_def by auto
qed

lemma chainLoop_exit:
  "\<not> (int (length chn) < targetLength \<and> length used < length sortedItems)
   \<Longrightarrow> chainLoop sortedItems recipe targetLength usage tw (chn, used, dbg, current)
       = (chn, used, dbg, current)"
  by (subst chainLoop.simps) auto

lemma chainLoop_break:
  "extendChain sortedItems recipe usage tw (chn, used, dbg, current) = None
   \<Longrightarrow> chainLoop sortedItems recipe targetLength usage tw (chn, used, dbg, current)
       = (chn, used, dbg, current)"
  by (subst chainLoop.simps) auto

lemma chainLoop_step:
  "int (length chn) < targetLength \<Longrightarrow> length used < length sortedItems
   \<Longrightarrow> extendChain sortedItems recipe usage tw (chn, used, dbg, current) = Some st'
   \<Longrightarrow> chainLoop sortedItems recipe targetLength usage tw (chn, used, dbg, current)
       = chainLoop sortedItems recipe targetLength usage tw st'"
  by (subst chainLoop.simps) auto

lemma chainLoop_inv:
  "chainInv sortedItems st \<Longrightarrow> chainInv sortedItems (chainLoop sortedItems recipe targetLength usage tw st)"
proof (induction sortedItems recipe targetLength usage tw st rule: chainLoop.induct)
  case (1 sortedItems recipe targetLength usage tagWeights chn used dbg current)
  show ?case
  proof (cases "int (length chn) < targetLength \<and> length used < length sortedItems")
    case False
    with "1.prems" show ?thesis by (simp add: chainLoop_exit)
  next
    case True
    show ?thesis
    proof (cases "extendChain sortedItems recipe usage tagWeights (chn, used, dbg, current)")
      case None
      with "1.prems" show ?thesis by (simp add: chainLoop_break)
    next
      case (Some st')
      from chainInv_step [OF "1.prems" Some] have "chainInv sortedItems st'" .
      from "1.IH" [OF True Some this] True Some show ?thesis
        by (simp add: chainLoop_step)
    qed
  qed
qed

subsection \<open>The chain that \<open>buildChain\<close> returns\<close>

lemma chainLoop_length:
  "length used = length chn \<Longrightarrow>
   chainLoop sortedItems recipe targetLength usage tw (chn, used, dbg, current) = (chn', used', dbg', current')
   \<Longrightarrow> int (length chn') \<le> max (int (length chn)) targetLength
       \<and> length chn' \<le> max (length chn) (length sortedItems)"
proof (induction sortedItems recipe targetLength usage tw "(chn, used, dbg, current)"
         arbitrary: chn used dbg current rule: chainLoop.induct)
  case (1 sortedItems recipe targetLength usage tagWeights chn used dbg current)
  show ?case
  proof (cases "int (length chn) < targetLength \<and> length used < length sortedItems")
    case False
    with "1.prems" show ?thesis by (simp add: chainLoop_exit)
  next
    case True
    show ?thesis
    proof (cases "extendChain sortedItems recipe usage tagWeights (chn, used, dbg, current)")
      case None
      with "1.prems" show ?thesis by (simp add: chainLoop_break)
    next
      case (Some st')
      from extendChain_Some [OF Some] obtain best bd where
        st': "st' = (chn @ [best], used @ [anecdote_id best], bd, best)"
        by blast
      from "1.prems" True Some st' have
        run: "chainLoop sortedItems recipe targetLength usage tagWeights
                (chn @ [best], used @ [anecdote_id best], bd, best) = (chn', used', dbg', current')"
        by (simp add: chainLoop_step)
      from "1.prems" have len: "length (used @ [anecdote_id best]) = length (chn @ [best])"
        by simp
      from Some st' have ext: "extendChain sortedItems recipe usage tagWeights (chn, used, dbg, current)
          = Some (chn @ [best], used @ [anecdote_id best], bd, best)"
        by simp
      from "1.hyps" [OF True ext len run] True "1.prems"(1) show ?thesis
        by auto
    qed
  qed
qed

lemma chainLoop_final:
  "chainLoop sortedItems recipe targetLength usage tw st = (chn', used', dbg', current')
   \<Longrightarrow> \<not> (int (length chn') < targetLength \<and> length used' < length sortedItems)
       \<or> (\<forall>x\<in>set sortedItems. anecdote_id x \<in> set used')"
proof (induction sortedItems recipe targetLength usage tw st rule: chainLoop.induct)
  case (1 sortedItems recipe targetLength usage tagWeights chn used dbg current)
  show ?case
  proof (cases "int (length chn) < targetLength \<and> length used < length sortedItems")
    case False
    with "1.prems" show ?thesis by (simp add: chainLoop_exit)
  next
    case True
    show ?thesis
    proof (cases "extendChain sortedItems recipe usage tagWeights (chn, used, dbg, current)")
      case None
      from extendChain_None [OF None] "1.prems" None show ?thesis
        by (simp add: chainLoop_break)
    next
      case (Some st')
      from "1.prems" True Some have
        "chainLoop sortedItems recipe targetLength usage tagWeights st' = (chn', used', dbg', current')"
        by (simp add: chainLoop_step)
      from "1.IH" [OF True Some this] show ?thesis .
    qed
  qed
qed

text \<open>What \<open>buildChain\<close> returns on a non-empty item list.\<close>

lemma buildChain_nonempty:
  assumes "items \<noteq> []"
  obtains c chn used dbg cur where
    "pickStart (sort_key m_timestamp items) recipe usage tw = Some c"
    "chainLoop (sort_key m_timestamp items) recipe targetLength usage tw
       ([c], [anecdote_id c], Map.empty, c) = (chn, used, dbg, cur)"
    "buildChain items recipe targetLength usage tw = \<lparr> chain = chn, debugByBeat = dbg \<rparr>"
    "chainInv (sort_key m_timestamp items) (chn, used, dbg, cur)"
proof -
  let ?sorted = "sort_key m_timestamp items"
  from assms have "?sorted \<noteq> []"
    by (metis length_sort length_0_conv)
  from pickStart_Some [OF this] obtain c where
    c: "pickStart ?sorted recipe usage tw = Some c" and cin: "c \<in> set ?sorted"
    by blast
  obtain chn used dbg cur where
    run: "chainLoop ?sorted recipe targetLength usage tw ([c], [anecdote_id c], Map.empty, c)
            = (chn, used, dbg, cur)"
    by (metis prod_cases4)
  from cin have "chainInv ?sorted ([c], [anecdote_id c], Map.empty, c)"
    by (simp add: chainInv_def)
  then have "chainInv ?sorted
     (chainLoop ?sorted recipe targetLength usage tw ([c], [anecdote_id c], Map.empty, c))"
    by (rule chainLoop_inv)
  with run have inv: "chainInv ?sorted (chn, used, dbg, cur)" by simp
  from assms c run have bc:
    "buildChain items recipe targetLength usage tw = \<lparr> chain = chn, debugByBeat = dbg \<rparr>"
    by (simp add: buildChain_def Let_def setAdd_def)
  show ?thesis by (rule that [OF c run bc inv])
qed

lemma buildChain_empty:
  "buildChain [] recipe targetLength usage tw = \<lparr> chain = [], debugByBeat = Map.empty \<rparr>"
  by (simp add: buildChain_def)

lemma buildChain_chain_nonempty:
  "items \<noteq> [] \<Longrightarrow> chain (buildChain items recipe targetLength usage tw) \<noteq> []"
  by (erule buildChain_nonempty [where recipe = recipe and usage = usage and tw = tw
        and targetLength = targetLength]) (simp add: chainInv_def)

lemma buildChain_distinct:
  "distinct (map anecdote_id (chain (buildChain items recipe targetLength usage tw)))"
proof (cases "items = []")
  case True
  then show ?thesis by (simp add: buildChain_empty)
next
  case False
  then show ?thesis
    by (rule buildChain_nonempty [where recipe = recipe and usage = usage and tw = tw
        and targetLength = targetLength]) (simp add: chainInv_def)
qed

lemma buildChain_subset:
  "set (chain (buildChain items recipe targetLength usage tw)) \<subseteq> set items"
proof (cases "items = []")
  case True
  then show ?thesis by (simp add: buildChain_empty)
next
  case False
  then show ?thesis
    by (rule buildChain_nonempty [where recipe = recipe and usage = usage and tw = tw
        and targetLength = targetLength]) (simp add: chainInv_def)
qed

lemma buildChain_length_items:
  "length (chain (buildChain items recipe targetLength usage tw)) \<le> length items"
proof (cases "items = []")
  case True
  then show ?thesis by (simp add: buildChain_empty)
next
  case False
  then show ?thesis
  proof (rule buildChain_nonempty [where recipe = recipe and usage = usage and tw = tw
        and targetLength = targetLength])
    fix c chn used dbg cur
    assume run: "chainLoop (sort_key m_timestamp items) recipe targetLength usage tw
       ([c], [anecdote_id c], Map.empty, c) = (chn, used, dbg, cur)"
      and b: "buildChain items recipe targetLength usage tw = \<lparr> chain = chn, debugByBeat = dbg \<rparr>"
    from chainLoop_length [OF _ run] have "length chn \<le> max (length [c]) (length (sort_key m_timestamp items))"
      by simp
    moreover from False have "1 \<le> length items" by (cases items) auto
    ultimately show ?thesis using b by simp
  qed
qed

lemma buildChain_length_target:
  "int (length (chain (buildChain items recipe targetLength usage tw))) \<le> max 1 targetLength"
proof (cases "items = []")
  case True
  then show ?thesis by (simp add: buildChain_empty)
next
  case False
  then show ?thesis
  proof (rule buildChain_nonempty [where recipe = recipe and usage = usage and tw = tw
        and targetLength = targetLength])
    fix c chn used dbg cur
    assume run: "chainLoop (sort_key m_timestamp items) recipe targetLength usage tw
       ([c], [anecdote_id c], Map.empty, c) = (chn, used, dbg, cur)"
      and b: "buildChain items recipe targetLength usage tw = \<lparr> chain = chn, debugByBeat = dbg \<rparr>"
    from chainLoop_length [OF _ run] have "int (length chn) \<le> max (int (length [c])) targetLength"
      by simp
    then show ?thesis using b by simp
  qed
qed

lemma buildChain_debug:
  assumes "0 < i" "i < length (chain (buildChain items recipe targetLength usage tw))"
  shows "\<exists>bd. debugByBeat (buildChain items recipe targetLength usage tw)
                (anecdote_id (chain (buildChain items recipe targetLength usage tw) ! i)) = Some bd
           \<and> previousAnecdoteId bd
               = anecdote_id (chain (buildChain items recipe targetLength usage tw) ! (i - 1))
           \<and> 1 \<le> storytellerStreak bd"
proof (cases "items = []")
  case True
  with assms show ?thesis by (simp add: buildChain_empty)
next
  case False
  then show ?thesis
  proof (rule buildChain_nonempty [where recipe = recipe and usage = usage and tw = tw
        and targetLength = targetLength])
    fix c chn used dbg cur
    assume b: "buildChain items recipe targetLength usage tw = \<lparr> chain = chn, debugByBeat = dbg \<rparr>"
      and inv: "chainInv (sort_key m_timestamp items) (chn, used, dbg, cur)"
    from assms b have "0 < i \<and> i < length chn" by simp
    with inv have "\<exists>bd. dbg (anecdote_id (chn ! i)) = Some bd
                 \<and> previousAnecdoteId bd = anecdote_id (chn ! (i - 1))
                 \<and> 1 \<le> storytellerStreak bd"
      unfolding chainInv_def by blast
    with b show ?thesis by simp
  qed
qed

text \<open>When the loop stops short of the target, every item id is in the chain.\<close>

lemma buildChain_exhausts:
  assumes "int (length (chain (buildChain items recipe targetLength usage tw))) < targetLength"
    and "x \<in> set items"
  shows "anecdote_id x \<in> anecdote_id ` set (chain (buildChain items recipe targetLength usage tw))"
proof -
  from assms(2) have ne: "items \<noteq> []" by auto
  show ?thesis
  proof (rule buildChain_nonempty [OF ne, where recipe = recipe and usage = usage and tw = tw
        and targetLength = targetLength])
    fix c chn used dbg cur
    assume run: "chainLoop (sort_key m_timestamp items) recipe targetLength usage tw
       ([c], [anecdote_id c], Map.empty, c) = (chn, used, dbg, cur)"
      and b: "buildChain items recipe targetLength usage tw = \<lparr> chain = chn, debugByBeat = dbg \<rparr>"
      and inv: "chainInv (sort_key m_timestamp items) (chn, used, dbg, cur)"
    from inv have used: "used = map anecdote_id chn" and dist: "distinct used"
      and sub: "set chn \<subseteq> set items"
      by (auto simp: chainInv_def)
    from assms(1) b have short: "int (length chn) < targetLength" by simp
    show ?thesis
    proof (cases "\<forall>x\<in>set (sort_key m_timestamp items). anecdote_id x \<in> set used")
      case True
      with assms(2) used b show ?thesis by simp
    next
      case False
      with chainLoop_final [OF run] short have "\<not> length used < length items"
        by auto
      with used have full: "length items \<le> length chn" by simp
      from dist used have dc: "distinct chn" by (simp add: distinct_map)
      have "card (set items) \<le> length items" by (rule card_length)
      moreover from dc have "card (set chn) = length chn" by (rule distinct_card)
      ultimately have "card (set items) \<le> card (set chn)" using full by linarith
      with sub have "set chn = set items"
        by (intro card_seteq) simp_all
      with assms(2) b show ?thesis by simp
    qed
  qed
qed

subsection \<open>Rendering and the assembler\<close>

lemma buildStoryline_nonempty:
  "chn \<noteq> [] \<Longrightarrow> \<exists>s. buildStoryline recipe chn dbg = Inr s"
  by (cases chn) (simp_all add: buildStoryline_def)

lemma buildStoryline_Inr:
  assumes "buildStoryline recipe chn dbg = Inr s"
  shows "chn \<noteq> []"
    and "storyline_id s = recipe_id recipe"
    and "beats s = map (\<lambda>index. buildBeat recipe chn dbg index (chn ! index)) [0 ..< length chn]"
  using assms by (cases chn; auto simp: buildStoryline_def)+

lemma runRecipe_skip:
  "length (chain (buildChain items recipe targetLength (usage_of st) tw)) < 3
   \<or> signatureOf (chain (buildChain items recipe targetLength (usage_of st) tw)) \<in> set (signatures st)
   \<Longrightarrow> runRecipe items targetLength tw recipe st = Inr st"
  by (auto simp: runRecipe_def Let_def)

lemma runRecipe_emit:
  assumes "3 \<le> length (chain (buildChain items recipe targetLength (usage_of st) tw))"
    and "signatureOf (chain (buildChain items recipe targetLength (usage_of st) tw)) \<notin> set (signatures st)"
  shows "\<exists>s. buildStoryline recipe (chain (buildChain items recipe targetLength (usage_of st) tw))
               (debugByBeat (buildChain items recipe targetLength (usage_of st) tw)) = Inr s
          \<and> runRecipe items targetLength tw recipe st
              = Inr \<lparr> usage_of = foldl bumpUsage (usage_of st)
                                  (chain (buildChain items recipe targetLength (usage_of st) tw)),
                      storylines = storylines st @ [s],
                      signatures = signatures st
                        @ [signatureOf (chain (buildChain items recipe targetLength (usage_of st) tw))] \<rparr>"
proof -
  let ?b = "buildChain items recipe targetLength (usage_of st) tw"
  from assms(1) have "chain ?b \<noteq> []" by auto
  from buildStoryline_nonempty [OF this] obtain s where
    "buildStoryline recipe (chain ?b) (debugByBeat ?b) = Inr s" by blast
  with assms show ?thesis
    by (auto simp: runRecipe_def Let_def setAdd_def)
qed

lemma runRecipe_short:
  "length items < 3 \<Longrightarrow> runRecipe items targetLength tw recipe st = Inr st"
  using buildChain_length_items [of items recipe targetLength "usage_of st" tw]
  by (simp add: runRecipe_def Let_def)

lemma runRecipes_short:
  "length items < 3 \<Longrightarrow> runRecipes items targetLength tw rs st = Inr st"
  by (induction rs) (simp_all add: runRecipe_short)

lemma runRecipe_emits:
  "\<exists>st' new. runRecipe items targetLength tw recipe st = Inr st'
     \<and> storylines st' = storylines st @ new
     \<and> (\<forall>s\<in>set new. emittedBy items tw 3 recipe s)"
proof -
  let ?b = "buildChain items recipe targetLength (usage_of st) tw"
  show ?thesis
  proof (cases "length (chain ?b) < 3 \<or> signatureOf (chain ?b) \<in> set (signatures st)")
    case True
    from runRecipe_skip [OF this] have "runRecipe items targetLength tw recipe st = Inr st
       \<and> storylines st = storylines st @ [] \<and> (\<forall>s\<in>set []. emittedBy items tw 3 recipe s)"
      by simp
    then show ?thesis by blast
  next
    case False
    then have len: "3 \<le> length (chain ?b)"
      and sig: "signatureOf (chain ?b) \<notin> set (signatures st)"
      by auto
    from runRecipe_emit [OF len sig] obtain s where
      bs: "buildStoryline recipe (chain ?b) (debugByBeat ?b) = Inr s"
      and run: "runRecipe items targetLength tw recipe st
              = Inr \<lparr> usage_of = foldl bumpUsage (usage_of st) (chain ?b),
                      storylines = storylines st @ [s],
                      signatures = signatures st @ [signatureOf (chain ?b)] \<rparr>"
      by blast
    from len bs have "emittedBy items tw 3 recipe s"
      unfolding emittedBy_def by blast
    with run have "runRecipe items targetLength tw recipe st
              = Inr \<lparr> usage_of = foldl bumpUsage (usage_of st) (chain ?b),
                      storylines = storylines st @ [s],
                      signatures = signatures st @ [signatureOf (chain ?b)] \<rparr>
       \<and> storylines \<lparr> usage_of = foldl bumpUsage (usage_of st) (chain ?b),
                      storylines = storylines st @ [s],
                      signatures = signatures st @ [signatureOf (chain ?b)] \<rparr> = storylines st @ [s]
       \<and> (\<forall>s'\<in>set [s]. emittedBy items tw 3 recipe s')"
      by simp
    then show ?thesis by blast
  qed
qed

lemma runRecipes_emits:
  "\<exists>st' new. runRecipes items targetLength tw rs st = Inr st'
     \<and> storylines st' = storylines st @ new
     \<and> (\<forall>s\<in>set new. \<exists>r\<in>set rs. emittedBy items tw 3 r s)"
proof (induction rs arbitrary: st)
  case Nil
  then show ?case by simp
next
  case (Cons r rs)
  from runRecipe_emits [of items targetLength tw r st] obtain st1 new1 where
    r1: "runRecipe items targetLength tw r st = Inr st1"
    and s1: "storylines st1 = storylines st @ new1"
    and e1: "\<forall>s\<in>set new1. emittedBy items tw 3 r s"
    by blast
  from Cons.IH [of st1] obtain st2 new2 where
    r2: "runRecipes items targetLength tw rs st1 = Inr st2"
    and s2: "storylines st2 = storylines st1 @ new2"
    and e2: "\<forall>s\<in>set new2. \<exists>r\<in>set rs. emittedBy items tw 3 r s"
    by blast
  from r1 r2 have "runRecipes items targetLength tw (r # rs) st = Inr st2" by simp
  moreover from s1 s2 have "storylines st2 = storylines st @ (new1 @ new2)" by simp
  moreover from e1 e2 have "\<forall>s\<in>set (new1 @ new2). \<exists>r'\<in>set (r # rs). emittedBy items tw 3 r' s"
    by auto
  ultimately show ?case by blast
qed

lemma assembleStorylines_emits:
  assumes "items \<noteq> []"
  shows "\<exists>ss. assembleStorylines items topTags tw = Inr ss \<and> ss \<noteq> []
           \<and> (\<forall>s\<in>set ss. (\<exists>r\<in>set (recipes topTags). emittedBy items tw 3 r s)
                 \<or> emittedBy items tw 1 (fallbackRecipe topTags) s)"
proof -
  let ?tgt = "normalTargetLength (length items)"
  from runRecipes_emits [of items ?tgt tw "recipes topTags" initialRun] obtain st new where
    run: "runRecipes items ?tgt tw (recipes topTags) initialRun = Inr st"
    and sl: "storylines st = new"
    and em: "\<forall>s\<in>set new. \<exists>r\<in>set (recipes topTags). emittedBy items tw 3 r s"
    by (auto simp: initialRun_def)
  show ?thesis
  proof (cases "new = []")
    case False
    with run sl em assms show ?thesis
      by (simp add: assembleStorylines_def Let_def)
  next
    case True
    let ?b = "buildChain items (fallbackRecipe topTags) (min 6 (int (length items))) (usage_of st) tw"
    from assms have ne: "chain ?b \<noteq> []" by (rule buildChain_chain_nonempty)
    from buildStoryline_nonempty [OF this] obtain s where
      bs: "buildStoryline (fallbackRecipe topTags) (chain ?b) (debugByBeat ?b) = Inr s" by blast
    from ne have "1 \<le> length (chain ?b)" by (cases "chain ?b") auto
    with bs have "emittedBy items tw 1 (fallbackRecipe topTags) s"
      unfolding emittedBy_def by blast
    moreover from run sl True assms ne bs have "assembleStorylines items topTags tw = Inr [s]"
      by (simp add: assembleStorylines_def Let_def)
    ultimately show ?thesis by simp
  qed
qed

lemma toMeta_length [simp]: "length (toMeta getTime anecdotes) = length anecdotes"
  by (simp add: toMeta_def)

lemma toMeta_Nil_iff [simp]: "toMeta getTime anecdotes = [] \<longleftrightarrow> anecdotes = []"
  by (simp add: toMeta_def)

lemma generateStorylines_emits:
  assumes "anecdotes \<noteq> []"
  shows "\<exists>ss. generateStorylines getTime anecdotes = Inr ss \<and> ss \<noteq> []
           \<and> (\<forall>s\<in>set ss.
                 (\<exists>r\<in>set (recipes (getTopTags (toMeta getTime anecdotes) 6)).
                     emittedBy (toMeta getTime anecdotes) (computeTagWeights (toMeta getTime anecdotes)) 3 r s)
                 \<or> emittedBy (toMeta getTime anecdotes) (computeTagWeights (toMeta getTime anecdotes)) 1
                      (fallbackRecipe (getTopTags (toMeta getTime anecdotes) 6)) s)"
proof -
  from assms have "toMeta getTime anecdotes \<noteq> []" by simp
  from assembleStorylines_emits [OF this] assms show ?thesis
    by (simp add: generateStorylines_def Let_def)
qed

lemma recipes_ids:
  "r \<in> set (recipes topTags) \<Longrightarrow> recipe_id r \<noteq> ''core''"
  by (auto simp: recipes_def)

lemma buildStoryline_anecdotes:
  assumes "buildStoryline recipe chn dbg = Inr s"
  shows "map anecdote (beats s) = chn" and "length (beats s) = length chn"
proof -
  from buildStoryline_Inr(3) [OF assms] have
    b: "beats s = map (\<lambda>index. buildBeat recipe chn dbg index (chn ! index)) [0 ..< length chn]" .
  then have "map anecdote (beats s) = map (\<lambda>index. chn ! index) [0 ..< length chn]"
    by (simp add: buildBeat_def Let_def)
  then show "map anecdote (beats s) = chn" by (simp add: map_nth)
  from b show "length (beats s) = length chn" by simp
qed

lemma buildStoryline_beat:
  assumes "buildStoryline recipe chn dbg = Inr s" and "i < length chn"
  shows "beats s ! i = buildBeat recipe chn dbg i (chn ! i)"
  using buildStoryline_Inr(3) [OF assms(1)] assms(2) by simp

text \<open>Two items with distinct ids: every chain takes both.\<close>

lemma buildChain_two:
  assumes "anecdote_id x \<noteq> anecdote_id y" and "2 \<le> targetLength"
  shows "length (chain (buildChain [x, y] recipe targetLength usage tw)) = 2
         \<and> set (chain (buildChain [x, y] recipe targetLength usage tw)) = {x, y}"
proof -
  let ?c = "chain (buildChain [x, y] recipe targetLength usage tw)"
  have le: "length ?c \<le> 2"
    using buildChain_length_items [of "[x, y]" recipe targetLength usage tw] by simp
  have sub: "set ?c \<subseteq> {x, y}"
    using buildChain_subset [of "[x, y]" recipe targetLength usage tw] by simp
  have dist: "distinct (map anecdote_id ?c)" by (rule buildChain_distinct)
  have both: "x \<in> set ?c \<and> y \<in> set ?c"
  proof (rule ccontr)
    assume miss: "\<not> (x \<in> set ?c \<and> y \<in> set ?c)"
    with sub have "set ?c \<subseteq> {x} \<or> set ?c \<subseteq> {y}" by auto
    then have "anecdote_id ` set ?c \<subseteq> {anecdote_id x} \<or> anecdote_id ` set ?c \<subseteq> {anecdote_id y}"
      by auto
    then have "card (anecdote_id ` set ?c) \<le> 1"
      by (metis card_mono finite.emptyI finite.insertI card.empty card.insert empty_iff One_nat_def)
    moreover from dist have "card (anecdote_id ` set ?c) = length ?c"
      by (metis distinct_card length_map set_map)
    ultimately have "int (length ?c) < targetLength" using assms(2) by simp
    then have "anecdote_id x \<in> anecdote_id ` set ?c" "anecdote_id y \<in> anecdote_id ` set ?c"
      using buildChain_exhausts [of "[x, y]" recipe targetLength usage tw] by simp_all
    with sub assms(1) have "x \<in> set ?c \<and> y \<in> set ?c" by auto
    with miss show False by simp
  qed
  with sub have eq: "set ?c = {x, y}" by auto
  from assms(1) have "x \<noteq> y" by auto
  with eq have "card (set ?c) = 2" by simp
  then have "2 \<le> length ?c" by (metis card_length)
  with le eq show ?thesis by simp
qed

lemma assembleStorylines_short:
  assumes "items \<noteq> []" and "length items < 3"
  shows "assembleStorylines items topTags tw =
           (case buildStoryline (fallbackRecipe topTags)
                   (chain (buildChain items (fallbackRecipe topTags) (min 6 (int (length items)))
                             Map.empty tw))
                   (debugByBeat (buildChain items (fallbackRecipe topTags) (min 6 (int (length items)))
                             Map.empty tw)) of
              Inl e \<Rightarrow> Inl e
            | Inr s \<Rightarrow> Inr [s])"
proof -
  from assms(2) have "runRecipes items (normalTargetLength (length items)) tw (recipes topTags) initialRun
      = Inr initialRun"
    by (rule runRecipes_short)
  moreover from assms(1) have
    "chain (buildChain items (fallbackRecipe topTags) (min 6 (int (length items))) Map.empty tw) \<noteq> []"
    by (rule buildChain_chain_nonempty)
  ultimately show ?thesis using assms(1)
    by (simp add: assembleStorylines_def Let_def initialRun_def cong: sum.case_cong)
qed

subsection \<open>Connections\<close>












subsection \<open>The usage counter\<close>

lemma usageOf_bump:
  "usageOf (bumpUsage usage item) i
     = usageOf usage i + (if i = anecdote_id item then 1 else 0)"
  by (simp add: bumpUsage_def usageOf_def)


lemma usageOf_foldl_bump:
  "distinct (map anecdote_id chn) \<Longrightarrow>
   usageOf (foldl bumpUsage usage chn) i
     = usageOf usage i + (if i \<in> anecdote_id ` set chn then 1 else 0)"
proof (induction chn arbitrary: usage)
  case Nil
  then show ?case by simp
next
  case (Cons x xs)
  then show ?case by (auto simp: usageOf_bump)
qed


subsection \<open>Tag weights\<close>

lemma uniq_set [simp]: "set (uniq xs) = set xs"
  by (induction xs rule: uniq.induct) auto

lemma uniq_distinct [simp]: "distinct (uniq xs)"
  by (induction xs rule: uniq.induct) auto

lemma foldl_bumpDoc:
  "distinct ts \<Longrightarrow>
   foldl bumpDoc m ts t
     = (if t \<in> set ts then Some ((case m t of None \<Rightarrow> 0 | Some c \<Rightarrow> c) + 1) else m t)"
  by (induction ts arbitrary: m) (auto simp: bumpDoc_def)

lemma foldl_countTagDocs:
  "foldl (\<lambda>tagDocs item. foldl bumpDoc tagDocs (uniq (m_tags item))) m items t
     = (if docFreq items t = 0 then m t
        else Some ((case m t of None \<Rightarrow> 0 | Some c \<Rightarrow> c) + docFreq items t))"
proof (induction items arbitrary: m)
  case Nil
  then show ?case by (simp add: docFreq_def)
next
  case (Cons x xs)
  let ?m' = "foldl bumpDoc m (uniq (m_tags x))"
  have m': "?m' t = (if t \<in> set (m_tags x)
                     then Some ((case m t of None \<Rightarrow> 0 | Some c \<Rightarrow> c) + 1) else m t)"
    using foldl_bumpDoc [of "uniq (m_tags x)" m t] by simp
  have "foldl (\<lambda>tagDocs item. foldl bumpDoc tagDocs (uniq (m_tags item))) m (x # xs) t
        = foldl (\<lambda>tagDocs item. foldl bumpDoc tagDocs (uniq (m_tags item))) ?m' xs t"
    by simp
  also have "\<dots> = (if docFreq xs t = 0 then ?m' t
        else Some ((case ?m' t of None \<Rightarrow> 0 | Some c \<Rightarrow> c) + docFreq xs t))"
    by (rule Cons.IH)
  also have "\<dots> = (if docFreq (x # xs) t = 0 then m t
        else Some ((case m t of None \<Rightarrow> 0 | Some c \<Rightarrow> c) + docFreq (x # xs) t))"
    unfolding m' by (simp add: docFreq_def)
  finally show ?case .
qed

lemma countTagDocs_docFreq:
  "countTagDocs items t = (if docFreq items t = 0 then None else Some (docFreq items t))"
  by (simp add: countTagDocs_def foldl_countTagDocs)

lemma computeTagWeights_docFreq:
  "computeTagWeights items t
     = (if docFreq items t = 0 then None
        else Some (idfWeight (max 1 (length items)) (docFreq items t)))"
  by (simp add: computeTagWeights_def Let_def countTagDocs_docFreq)



lemma docFreq_zero: "\<forall>item\<in>set items. t \<notin> set (m_tags item) \<Longrightarrow> docFreq items t = 0"
  by (auto simp: docFreq_def filter_empty_conv)












lemma computeTagWeights_no_tags:
  "\<forall>item\<in>set items. m_tags item = [] \<Longrightarrow> computeTagWeights items = Map.empty"
proof
  fix t
  assume "\<forall>item\<in>set items. m_tags item = []"
  then have "\<forall>item\<in>set items. t \<notin> set (m_tags item)" by simp
  from docFreq_zero [OF this] show "computeTagWeights items t = None"
    by (simp add: computeTagWeights_docFreq)
qed

subsection \<open>The first recipe of a run\<close>

lemma recipes_split:
  "recipes topTags = hd (recipes topTags) # tl (recipes topTags)"
  by (simp add: recipes_def)

lemma emittedBy_id: "emittedBy items tw n r s \<Longrightarrow> storyline_id s = recipe_id r"
  unfolding emittedBy_def using buildStoryline_Inr(2) by blast

lemma runRecipes_ids:
  "\<exists>st' new. runRecipes items targetLength tw rs st = Inr st'
     \<and> storylines st' = storylines st @ new
     \<and> storyline_id ` set new \<subseteq> recipe_id ` set rs"
proof -
  from runRecipes_emits [of items targetLength tw rs st] obtain st' new where
    r: "runRecipes items targetLength tw rs st = Inr st'"
    and s: "storylines st' = storylines st @ new"
    and e: "\<forall>s\<in>set new. \<exists>r\<in>set rs. emittedBy items tw 3 r s"
    by blast
  from e have "storyline_id ` set new \<subseteq> recipe_id ` set rs"
    using emittedBy_id by fastforce
  with r s show ?thesis by blast
qed

lemma assembleStorylines_run:
  assumes "runRecipes items (normalTargetLength (length items)) tw (recipes topTags) initialRun = Inr st"
    and "storylines st \<noteq> []"
  shows "assembleStorylines items topTags tw = Inr (storylines st)"
  using assms by (simp add: assembleStorylines_def Let_def)

text \<open>When the chain of the first recipe has 3 items, its storyline is the first one returned.\<close>

lemma first_recipe_emits:
  assumes "3 \<le> length (chain (buildChain items (hd (recipes topTags))
                  (normalTargetLength (length items)) Map.empty tw))"
  shows "\<exists>s rest.
           buildStoryline (hd (recipes topTags))
             (chain (buildChain items (hd (recipes topTags)) (normalTargetLength (length items)) Map.empty tw))
             (debugByBeat (buildChain items (hd (recipes topTags)) (normalTargetLength (length items)) Map.empty tw))
             = Inr s
           \<and> assembleStorylines items topTags tw = Inr (s # rest)"
proof -
  let ?tgt = "normalTargetLength (length items)"
  let ?r = "hd (recipes topTags)"
  let ?b = "buildChain items ?r ?tgt Map.empty tw"
  from assms have len: "3 \<le> length (chain (buildChain items ?r ?tgt (usage_of initialRun) tw))"
    by (simp add: initialRun_def)
  have sig: "signatureOf (chain (buildChain items ?r ?tgt (usage_of initialRun) tw)) \<notin> set (signatures initialRun)"
    by (simp add: initialRun_def)
  from runRecipe_emit [OF len sig] obtain s st1 where
    bs: "buildStoryline ?r (chain ?b) (debugByBeat ?b) = Inr s"
    and r1: "runRecipe items ?tgt tw ?r initialRun = Inr st1"
    and s1: "storylines st1 = [s]"
    by (auto simp: initialRun_def)
  from runRecipes_ids [of items ?tgt tw "tl (recipes topTags)" st1] obtain st2 new where
    r2: "runRecipes items ?tgt tw (tl (recipes topTags)) st1 = Inr st2"
    and s2: "storylines st2 = storylines st1 @ new"
    by blast
  from r1 r2 have "runRecipes items ?tgt tw (?r # tl (recipes topTags)) initialRun = Inr st2"
    by simp
  then have run: "runRecipes items ?tgt tw (recipes topTags) initialRun = Inr st2"
    using recipes_split [of topTags] by simp
  from s1 s2 have st: "storylines st2 = s # new" by simp
  then have "storylines st2 \<noteq> []" by simp
  from assembleStorylines_run [OF run this] st bs show ?thesis by auto
qed

lemmas eval_rules =
  YEAR_MS_def score_weights Let_def toMeta_def Anecdote.defs AnecdoteMeta.defs
  countTagMatches_def sharedTags_def weightOr1_def computeThemeScore_def usageOf_def
  scoreConnection_def startScore_def startStep_def pickStart_def streakOf_def scanStep_def
  scanCandidates_def fallbackItem_def setAdd_def extendChain_def chainLoop.simps buildChain_def
  recipes_def fallbackRecipe_def

lemma countMatches_Nil: "countMatches text [] = 0"
  by (simp add: countMatches_def)

lemma backtrack_chain:
  "map anecdote_id (chain (buildChain (toMeta exampleClock backtrackAnecdotes)
      (hd (recipes [])) 4 Map.empty Map.empty)) = [''s'', ''c'', ''a'', ''b'']"
  by (simp add: eval_rules countMatches_Nil backtrackAnecdotes_def anecdoteOf_def exampleClock_def)

subsection \<open>The runs on the example inputs\<close>

lemma getTopTags_no_tags:
  assumes "\<forall>item\<in>set items. m_tags item = []"
  shows "getTopTags items limit = []"
proof -
  have "foldl (\<lambda>counts item. foldl (\<lambda>counts tag. bumpCount tag counts) counts (m_tags item)) acc items = acc"
    for acc using assms by (induction items arbitrary: acc) simp_all
  then show ?thesis by (simp add: getTopTags_def objectEntries_def)
qed

lemma toMeta_tags:
  "item \<in> set (toMeta getTime anecdotes) \<Longrightarrow> \<exists>a\<in>set anecdotes. m_tags item = map toLowerCase (tags a)"
  by (auto simp: toMeta_def Anecdote.defs AnecdoteMeta.defs)

lemma toMeta_no_tags:
  "\<forall>a\<in>set anecdotes. tags a = [] \<Longrightarrow> \<forall>item\<in>set (toMeta getTime anecdotes). m_tags item = []"
  using toMeta_tags by fastforce

lemma backtrack_no_tags: "\<forall>a\<in>set backtrackAnecdotes. tags a = []"
  by (simp add: backtrackAnecdotes_def anecdoteOf_def)

lemma backtrack_debug:
  "map_option candidateAnecdoteId
     (debugByBeat (buildChain (toMeta exampleClock backtrackAnecdotes)
        (hd (recipes [])) 4 Map.empty Map.empty) ''a'') = Some ''b''"
  by (simp add: eval_rules countMatches_Nil backtrackAnecdotes_def anecdoteOf_def exampleClock_def)






lemma dash_metas:
  "toMeta exampleClock dashAnecdotes =
     [Anecdote.extend (anecdoteOf ''a-a'' ''2000-01-01'' 2000 [] [] [] [])
        (AnecdoteMeta.fields 946684800000 ''     '' []),
      Anecdote.extend (anecdoteOf ''a'' ''2000-01-02'' 2000 ''dj'' [] [] [])
        (AnecdoteMeta.fields 946771200000 ''dj     '' []),
      Anecdote.extend (anecdoteOf ''x'' ''2010-01-01'' 2010 [] ''x'' [] [])
        (AnecdoteMeta.fields 1262304000000 ''    x '' []),
      Anecdote.extend (anecdoteOf ''y'' ''2020-01-01'' 2020 [] ''x'' [] [])
        (AnecdoteMeta.fields 1577836800000 ''    x '' [])]"
  unfolding dashAnecdotes_def anecdoteOf_def by code_simp

lemma dash_keywords:
  "countMatches ''     '' NIGHTLIFE_KEYWORDS = 0"
  "countMatches ''dj     '' NIGHTLIFE_KEYWORDS = 1"
  "countMatches ''    x '' NIGHTLIFE_KEYWORDS = 0"
  "countMatches ''     '' IMPACT_KEYWORDS = 0"
  "countMatches ''dj     '' IMPACT_KEYWORDS = 0"
  "countMatches ''    x '' IMPACT_KEYWORDS = 0"
  "str_includes ''     '' ''sold out'' = False"
  "str_includes ''dj     '' ''sold out'' = False"
  "str_includes ''    x '' ''sold out'' = False"
  by code_simp+

lemma countTagMatches_Nil: "countTagMatches [] focus = 0"
proof -
  have "foldl (\<lambda>count tag. if tag \<in> set [] then count + 1 else count) n focus = n" for n :: nat
    by (induction focus arbitrary: n) simp_all
  then show ?thesis by (simp add: countTagMatches_def)
qed

lemmas eval_rules_keywords =
  YEAR_MS_def score_weights Let_def Anecdote.defs AnecdoteMeta.defs
  sharedTags_def weightOr1_def computeThemeScore_def computeImpactScore_def
  scoreConnection_def startScore_def startStep_def pickStart_def streakOf_def scanStep_def
  scanCandidates_def fallbackItem_def setAdd_def extendChain_def chainLoop.simps buildChain_def
  recipes_def countTagMatches_Nil countMatches_Nil dash_keywords

lemma dash_chronicle:
  "map anecdote_id (chain (buildChain (toMeta exampleClock dashAnecdotes)
      (hd (recipes [])) 4 Map.empty Map.empty)) = [''a-a'', ''a'', ''x'', ''y'']"
  unfolding dash_metas
  by (simp add: eval_rules_keywords usageOf_def anecdoteOf_def)

lemma dash_nightlife:
  assumes "usageOf u ''a-a'' = 1" "usageOf u ''a'' = 1" "usageOf u ''x'' = 1" "usageOf u ''y'' = 1"
  shows "map anecdote_id (chain (buildChain (toMeta exampleClock dashAnecdotes)
      (recipes [] ! 1) 4 u Map.empty)) = [''a'', ''a-a'', ''x'', ''y'']"
  using assms unfolding dash_metas
  by (simp add: eval_rules_keywords anecdoteOf_def)

text \<open>The run on the four anecdotes of the backtrack example.\<close>

lemma backtrack_run:
  "\<exists>s rest.
     generateStorylines exampleClock backtrackAnecdotes = Inr (s # rest)
     \<and> buildStoryline (hd (recipes []))
          (chain (buildChain (toMeta exampleClock backtrackAnecdotes) (hd (recipes [])) 4 Map.empty Map.empty))
          (debugByBeat (buildChain (toMeta exampleClock backtrackAnecdotes) (hd (recipes [])) 4 Map.empty Map.empty))
         = Inr s"
proof -
  let ?items = "toMeta exampleClock backtrackAnecdotes"
  let ?r = "hd (recipes [])"
  let ?b = "buildChain ?items ?r 4 Map.empty Map.empty"
  have nt: "\<forall>item\<in>set ?items. m_tags item = []"
    using toMeta_no_tags [OF backtrack_no_tags] .
  have tt: "getTopTags ?items 6 = []" using nt by (rule getTopTags_no_tags)
  have tw: "computeTagWeights ?items = Map.empty" using nt by (rule computeTagWeights_no_tags)
  have tl: "normalTargetLength (length ?items) = 4"
    by (simp add: normalTargetLength_def backtrackAnecdotes_def)
  have "length (map anecdote_id (chain ?b)) = 4" unfolding backtrack_chain by simp
  then have "3 \<le> length (chain ?b)" by simp
  then have "3 \<le> length (chain (buildChain ?items (hd (recipes [])) (normalTargetLength (length ?items))
       Map.empty Map.empty))"
    unfolding tl .
  from first_recipe_emits [OF this] have "\<exists>s rest.
      buildStoryline ?r (chain ?b) (debugByBeat ?b) = Inr s
      \<and> assembleStorylines ?items [] Map.empty = Inr (s # rest)"
    unfolding tl .
  then obtain s rest where
    bs: "buildStoryline ?r (chain ?b) (debugByBeat ?b) = Inr s"
    and as: "assembleStorylines ?items [] Map.empty = Inr (s # rest)"
    by blast
  have ne: "backtrackAnecdotes \<noteq> []" by (simp add: backtrackAnecdotes_def)
  have "generateStorylines exampleClock backtrackAnecdotes
      = assembleStorylines ?items (getTopTags ?items 6) (computeTagWeights ?items)"
    using ne by (simp add: generateStorylines_def Let_def)
  then have "generateStorylines exampleClock backtrackAnecdotes = Inr (s # rest)"
    unfolding tt tw as .
  with bs show ?thesis by blast
qed



lemma recipes_three_parts:
  "recipes topTags = hd (recipes topTags) # (recipes topTags ! 1) # drop 2 (recipes topTags)"
  by (simp add: recipes_def)

lemma recipes_rest_ids:
  "recipe_id ` set (drop 2 (recipes topTags)) = {''breakthrough'', ''cinematic''}"
  by (simp add: recipes_def)









section \<open>The claims\<close>

text \<open>
  Claim C1. The engine never raises: on the empty list it returns the empty list, and on
  every non-empty list it returns a non-empty list of storylines, in which every
  storyline of a normal recipe (every one whose id is not that of the fallback recipe,
  \<open>core\<close>) has at least 3 beats.
\<close>

theorem generateStorylines_never_fails:
  "generateStorylines getTime [] = Inr []
   \<and> (anecdotes \<noteq> [] \<longrightarrow>
        (\<exists>ss. generateStorylines getTime anecdotes = Inr ss \<and> ss \<noteq> []
           \<and> (\<forall>s\<in>set ss. storyline_id s \<noteq> ''core'' \<longrightarrow> 3 \<le> length (beats s))))"
proof (intro conjI impI)
  show "generateStorylines getTime [] = Inr []"
    by (simp add: generateStorylines_def)
next
  assume "anecdotes \<noteq> []"
  from generateStorylines_emits [OF this, of getTime] obtain ss where
    g: "generateStorylines getTime anecdotes = Inr ss" and ne: "ss \<noteq> []"
    and em: "\<forall>s\<in>set ss.
                 (\<exists>r\<in>set (recipes (getTopTags (toMeta getTime anecdotes) 6)).
                     emittedBy (toMeta getTime anecdotes) (computeTagWeights (toMeta getTime anecdotes)) 3 r s)
                 \<or> emittedBy (toMeta getTime anecdotes) (computeTagWeights (toMeta getTime anecdotes)) 1
                      (fallbackRecipe (getTopTags (toMeta getTime anecdotes) 6)) s"
    by blast
  have "3 \<le> length (beats s)" if s: "s \<in> set ss" and id: "storyline_id s \<noteq> ''core''" for s
  proof -
    from em s have "(\<exists>r\<in>set (recipes (getTopTags (toMeta getTime anecdotes) 6)).
                     emittedBy (toMeta getTime anecdotes) (computeTagWeights (toMeta getTime anecdotes)) 3 r s)
                 \<or> emittedBy (toMeta getTime anecdotes) (computeTagWeights (toMeta getTime anecdotes)) 1
                      (fallbackRecipe (getTopTags (toMeta getTime anecdotes) 6)) s"
      by blast
    then show ?thesis
    proof
      assume "\<exists>r\<in>set (recipes (getTopTags (toMeta getTime anecdotes) 6)).
                     emittedBy (toMeta getTime anecdotes) (computeTagWeights (toMeta getTime anecdotes)) 3 r s"
      then obtain r chn dbg where "3 \<le> length chn" "buildStoryline r chn dbg = Inr s"
        unfolding emittedBy_def by blast
      with buildStoryline_Inr(3) [of r chn dbg s] show ?thesis by simp
    next
      assume "emittedBy (toMeta getTime anecdotes) (computeTagWeights (toMeta getTime anecdotes)) 1
                      (fallbackRecipe (getTopTags (toMeta getTime anecdotes) 6)) s"
      then obtain chn dbg where
        "buildStoryline (fallbackRecipe (getTopTags (toMeta getTime anecdotes) 6)) chn dbg = Inr s"
        unfolding emittedBy_def by blast
      from buildStoryline_Inr(2) [OF this] have "storyline_id s = ''core''"
        by (simp add: fallbackRecipe_def)
      with id show ?thesis by simp
    qed
  qed
  with g ne show "\<exists>ss. generateStorylines getTime anecdotes = Inr ss \<and> ss \<noteq> []
           \<and> (\<forall>s\<in>set ss. storyline_id s \<noteq> ''core'' \<longrightarrow> 3 \<le> length (beats s))"
    by blast
qed

lemma normalTargetLength_range: "4 \<le> normalTargetLength n \<and> normalTargetLength n \<le> 8"
  by (simp add: normalTargetLength_def)

text \<open>
  The theorem at the backtrack example: the list is not empty, the run returns a
  non-empty list, and its first storyline is not the fallback one and has 3 beats.
\<close>

theorem generateStorylines_never_fails_witness:
  "generateStorylines exampleClock [] = Inr []
   \<and> backtrackAnecdotes \<noteq> []
   \<and> \<not> isl (generateStorylines exampleClock backtrackAnecdotes)
   \<and> projr (generateStorylines exampleClock backtrackAnecdotes) \<noteq> []
   \<and> storyline_id (hd (projr (generateStorylines exampleClock backtrackAnecdotes))) \<noteq> ''core''
   \<and> 3 \<le> length (beats (hd (projr (generateStorylines exampleClock backtrackAnecdotes))))"
proof -
  have ne: "backtrackAnecdotes \<noteq> []" by (simp add: backtrackAnecdotes_def)
  from generateStorylines_never_fails [of exampleClock backtrackAnecdotes] ne obtain ss where
    e: "generateStorylines exampleClock [] = Inr []"
    and g: "generateStorylines exampleClock backtrackAnecdotes = Inr ss"
    and n: "ss \<noteq> []"
    and a: "\<forall>s\<in>set ss. storyline_id s \<noteq> ''core'' \<longrightarrow> 3 \<le> length (beats s)"
    by blast
  from backtrack_run g obtain s rest where
    ss: "ss = s # rest"
    and bs: "buildStoryline (hd (recipes []))
          (chain (buildChain (toMeta exampleClock backtrackAnecdotes) (hd (recipes [])) 4 Map.empty Map.empty))
          (debugByBeat (buildChain (toMeta exampleClock backtrackAnecdotes) (hd (recipes [])) 4 Map.empty Map.empty))
         = Inr s"
    by auto
  from buildStoryline_Inr(2) [OF bs] have id: "storyline_id s \<noteq> ''core''"
    by (simp add: recipes_def)
  with a ss have "3 \<le> length (beats s)" by simp
  with e ne g n ss id show ?thesis by simp
qed

text \<open>
  Claim C2. The claim fails on the backtrack example. In the \<open>chronicle\<close> chain the third
  beat is anecdote \<open>a\<close>: no candidate has a non-negative score after \<open>c\<close>, so the nearest
  chronological item \<open>a\<close> is taken, but \<open>bestBreakdown\<close> still holds the breakdown of the
  best-scoring candidate \<open>b\<close>, and that one is recorded under the id of \<open>a\<close>.
\<close>

theorem fallback_beat_carries_other_breakdown:
  "\<not> isl (generateStorylines exampleClock backtrackAnecdotes)
   \<and> storyline_id (hd (projr (generateStorylines exampleClock backtrackAnecdotes))) = ''chronicle''
   \<and> anecdote_id (anecdote (beats (hd (projr (generateStorylines exampleClock backtrackAnecdotes))) ! 2))
       = ''a''
   \<and> map_option candidateAnecdoteId
        (debug (beats (hd (projr (generateStorylines exampleClock backtrackAnecdotes))) ! 2))
       = Some ''b''"
proof -
  let ?items = "toMeta exampleClock backtrackAnecdotes"
  let ?r = "hd (recipes [])"
  let ?b = "buildChain ?items ?r 4 Map.empty Map.empty"
  from backtrack_run obtain s rest where
    g: "generateStorylines exampleClock backtrackAnecdotes = Inr (s # rest)"
    and bs: "buildStoryline ?r (chain ?b) (debugByBeat ?b) = Inr s"
    by blast
  from buildStoryline_Inr(2) [OF bs] have id: "storyline_id s = ''chronicle''"
    by (simp add: recipes_def)
  have "length (map anecdote_id (chain ?b)) = 4" unfolding backtrack_chain by simp
  then have i2: "2 < length (chain ?b)" by simp
  from buildStoryline_beat [OF bs i2] have beat: "beats s ! 2 = buildBeat ?r (chain ?b) (debugByBeat ?b) 2 (chain ?b ! 2)" .
  have "map anecdote_id (chain ?b) ! 2 = ''a''" unfolding backtrack_chain by simp
  then have a2: "anecdote_id (chain ?b ! 2) = ''a''" using nth_map [OF i2, of anecdote_id] by simp
  from beat a2 have "anecdote_id (anecdote (beats s ! 2)) = ''a''"
    by (simp add: buildBeat_def)
  moreover from beat a2 have "debug (beats s ! 2) = debugByBeat ?b ''a''"
    by (simp add: buildBeat_def)
  ultimately show ?thesis unfolding g using id backtrack_debug by simp
qed




text \<open>
  Claim C5. \<open>buildChain\<close> is a total function: its loop is \<open>chainLoop\<close>, whose termination
  is proved with the definition, and every pass appends one item whose id was not in
  \<open>used\<close> (lemma \<open>extendChain_Some\<close>). For every item list, recipe, target length, usage
  map and tag-weight table the chain has at most \<open>max(1, targetLength)\<close> beats and at most
  as many beats as there are items; the target length the assembler passes for the normal
  recipes is \<open>min(8, max(4, round(itemCount * 0.45)))\<close>, which lies between 4 and 8.
\<close>

theorem buildChain_length_bounded:
  "int (length (chain (buildChain items recipe targetLength usage tagWeights))) \<le> max 1 targetLength
   \<and> length (chain (buildChain items recipe targetLength usage tagWeights)) \<le> length items
   \<and> normalTargetLength n = min 8 (max 4 (round (real n * (45 / 100))))
   \<and> 4 \<le> normalTargetLength n \<and> normalTargetLength n \<le> 8"
proof -
  have "normalTargetLength n = min 8 (max 4 (round (real n * (45 / 100))))"
    by (simp add: normalTargetLength_def round_def)
  with buildChain_length_target [of items recipe targetLength usage tagWeights]
    buildChain_length_items [of items recipe targetLength usage tagWeights]
    normalTargetLength_range [of n]
  show ?thesis by simp
qed








text \<open>
  Claim C9. Two anecdotes with distinct ids give exactly one storyline, the fallback
  storyline \<open>core\<close>, and its two beats are the two anecdotes.
\<close>

theorem two_anecdotes_one_core_storyline:
  assumes "anecdote_id a \<noteq> anecdote_id b"
  shows "\<exists>s. generateStorylines getTime [a, b] = Inr [s]
           \<and> storyline_id s = ''core''
           \<and> length (beats s) = 2
           \<and> set (map anecdote (beats s)) = set (toMeta getTime [a, b])
           \<and> anecdote_id ` set (map anecdote (beats s)) = {anecdote_id a, anecdote_id b}"
proof -
  let ?items = "toMeta getTime [a, b]"
  let ?top = "getTopTags ?items 6"
  let ?tw = "computeTagWeights ?items"
  obtain x y where items: "?items = [x, y]"
    and ids: "anecdote_id x = anecdote_id a" "anecdote_id y = anecdote_id b"
    by (simp add: toMeta_def Anecdote.defs AnecdoteMeta.defs)
  let ?b = "buildChain [x, y] (fallbackRecipe ?top) 2 Map.empty ?tw"
  from assms ids have "anecdote_id x \<noteq> anecdote_id y" by simp
  from buildChain_two [OF this, of 2 "fallbackRecipe ?top" Map.empty ?tw]
  have len: "length (chain ?b) = 2" and st: "set (chain ?b) = {x, y}" by simp_all
  from len have "chain ?b \<noteq> []" by auto
  from buildStoryline_nonempty [OF this] obtain s where
    bs: "buildStoryline (fallbackRecipe ?top) (chain ?b) (debugByBeat ?b) = Inr s" by blast
  have "assembleStorylines [x, y] ?top ?tw = Inr [s]"
    using assembleStorylines_short [of "[x, y]" ?top ?tw] bs by simp
  with items have g: "generateStorylines getTime [a, b] = Inr [s]"
    by (simp add: generateStorylines_def Let_def)
  from buildStoryline_Inr(2) [OF bs] have id: "storyline_id s = ''core''"
    by (simp add: fallbackRecipe_def)
  from buildStoryline_anecdotes [OF bs] len st items
  have "length (beats s) = 2" and m: "set (map anecdote (beats s)) = set ?items"
    by simp_all
  moreover from m items ids have
    "anecdote_id ` set (map anecdote (beats s)) = {anecdote_id a, anecdote_id b}"
    by simp
  ultimately show ?thesis using g id by blast
qed

text \<open>The theorem at the two anecdotes of the twin example, whose ids are \<open>t1\<close> and \<open>t2\<close>.\<close>

theorem two_anecdotes_one_core_storyline_witness:
  "anecdote_id (anecdoteOf ''t1'' ''2000-01-01'' 2000 [] ''n'' [] [''x''])
     \<noteq> anecdote_id (anecdoteOf ''t2'' ''2000-01-02'' 2000 [] ''n'' [] [''x''])
   \<and> \<not> isl (generateStorylines exampleClock twinAnecdotes)
   \<and> length (projr (generateStorylines exampleClock twinAnecdotes)) = 1
   \<and> storyline_id (hd (projr (generateStorylines exampleClock twinAnecdotes))) = ''core''
   \<and> length (beats (hd (projr (generateStorylines exampleClock twinAnecdotes)))) = 2
   \<and> anecdote_id ` set (map anecdote (beats (hd (projr (generateStorylines exampleClock twinAnecdotes)))))
       = {''t1'', ''t2''}"
proof -
  let ?a = "anecdoteOf ''t1'' ''2000-01-01'' 2000 [] ''n'' [] [''x'']"
  let ?b = "anecdoteOf ''t2'' ''2000-01-02'' 2000 [] ''n'' [] [''x'']"
  have h: "anecdote_id ?a \<noteq> anecdote_id ?b" by (simp add: anecdoteOf_def)
  have ia: "anecdote_id ?a = ''t1''" and ib: "anecdote_id ?b = ''t2''"
    by (simp_all add: anecdoteOf_def)
  have tw: "twinAnecdotes = [?a, ?b]" by (simp add: twinAnecdotes_def)
  from two_anecdotes_one_core_storyline [OF h, of exampleClock] obtain s where
    g: "generateStorylines exampleClock [?a, ?b] = Inr [s]"
    and id: "storyline_id s = ''core''"
    and l2: "length (beats s) = 2"
    and im: "anecdote_id ` set (map anecdote (beats s)) = {anecdote_id ?a, anecdote_id ?b}"
    by blast
  from im have im': "anecdote_id ` set (map anecdote (beats s)) = {''t1'', ''t2''}"
    unfolding ia ib .
  from g have g': "generateStorylines exampleClock twinAnecdotes = Inr [s]" unfolding tw .
  from h id l2 im' show ?thesis unfolding g' by simp
qed

text \<open>
  Claim C10. The claim fails on the dash example, whose ids are \<open>a-a\<close>, \<open>a\<close>, \<open>x\<close>, \<open>y\<close>. The
  chain of \<open>chronicle\<close> has the ids \<open>a-a\<close>, \<open>a\<close>, \<open>x\<close>, \<open>y\<close>; the chain of \<open>nightlife\<close>, built
  with the usage counter that the first storyline leaves, has the ids \<open>a\<close>, \<open>a-a\<close>, \<open>x\<close>,
  \<open>y\<close>. The id sequences differ, both signatures are \<open>a-a-a-x-y\<close>, and the run returns
  no \<open>nightlife\<close> storyline.
\<close>

theorem dash_ids_collide:
  "map anecdote_id (chain (buildChain (toMeta exampleClock dashAnecdotes) (hd (recipes [])) 4
       Map.empty Map.empty))
     = [''a-a'', ''a'', ''x'', ''y'']
   \<and> map anecdote_id (chain (buildChain (toMeta exampleClock dashAnecdotes) (recipes [] ! 1) 4
       (foldl bumpUsage Map.empty
          (chain (buildChain (toMeta exampleClock dashAnecdotes) (hd (recipes [])) 4 Map.empty Map.empty)))
       Map.empty))
     = [''a'', ''a-a'', ''x'', ''y'']
   \<and> signatureOf (chain (buildChain (toMeta exampleClock dashAnecdotes) (recipes [] ! 1) 4
       (foldl bumpUsage Map.empty
          (chain (buildChain (toMeta exampleClock dashAnecdotes) (hd (recipes [])) 4 Map.empty Map.empty)))
       Map.empty))
     = signatureOf (chain (buildChain (toMeta exampleClock dashAnecdotes) (hd (recipes [])) 4
       Map.empty Map.empty))
   \<and> \<not> isl (generateStorylines exampleClock dashAnecdotes)
   \<and> storyline_id (hd (projr (generateStorylines exampleClock dashAnecdotes))) = ''chronicle''
   \<and> ''nightlife'' \<notin> storyline_id ` set (projr (generateStorylines exampleClock dashAnecdotes))"
proof -
  let ?items = "toMeta exampleClock dashAnecdotes"
  let ?r1 = "hd (recipes [])"
  let ?r2 = "recipes [] ! 1"
  let ?b1 = "buildChain ?items ?r1 4 Map.empty Map.empty"
  let ?u1 = "foldl bumpUsage Map.empty (chain ?b1)"
  let ?b2 = "buildChain ?items ?r2 4 ?u1 Map.empty"
  have nt0: "\<forall>a\<in>set dashAnecdotes. tags a = []"
    by (simp add: dashAnecdotes_def anecdoteOf_def)
  have nt: "\<forall>item\<in>set ?items. m_tags item = []"
    using toMeta_no_tags [OF nt0] .
  have tt: "getTopTags ?items 6 = []" using nt by (rule getTopTags_no_tags)
  have tw: "computeTagWeights ?items = Map.empty" using nt by (rule computeTagWeights_no_tags)
  have tl: "normalTargetLength (length ?items) = 4"
    by (simp add: normalTargetLength_def dashAnecdotes_def)
  have ids1: "map anecdote_id (chain ?b1) = [''a-a'', ''a'', ''x'', ''y'']"
    by (rule dash_chronicle)
  have d1: "distinct (map anecdote_id (chain ?b1))" by (rule buildChain_distinct)
  have "anecdote_id ` set (chain ?b1) = set (map anecdote_id (chain ?b1))" by simp
  then have img: "anecdote_id ` set (chain ?b1) = {''a-a'', ''a'', ''x'', ''y''}"
    unfolding ids1 by simp
  have u: "usageOf ?u1 ''a-a'' = 1" "usageOf ?u1 ''a'' = 1" "usageOf ?u1 ''x'' = 1" "usageOf ?u1 ''y'' = 1"
    unfolding usageOf_foldl_bump [OF d1] img by (simp_all add: usageOf_def)
  have ids2: "map anecdote_id (chain ?b2) = [''a'', ''a-a'', ''x'', ''y'']"
    using u by (rule dash_nightlife)
  have sg: "signatureOf (chain ?b2) = signatureOf (chain ?b1)"
    unfolding signatureOf_def ids1 ids2 by simp
  have "length (map anecdote_id (chain ?b1)) = 4" unfolding ids1 by simp
  then have len1: "3 \<le> length (chain (buildChain ?items ?r1 4 (usage_of initialRun) Map.empty))"
    by (simp add: initialRun_def)
  have sig1: "signatureOf (chain (buildChain ?items ?r1 4 (usage_of initialRun) Map.empty))
      \<notin> set (signatures initialRun)"
    by (simp add: initialRun_def)
  from runRecipe_emit [OF len1 sig1] obtain s1 where
    bs1: "buildStoryline ?r1 (chain ?b1) (debugByBeat ?b1) = Inr s1"
    and run1: "runRecipe ?items 4 Map.empty ?r1 initialRun
        = Inr \<lparr> usage_of = ?u1, storylines = [s1], signatures = [signatureOf (chain ?b1)] \<rparr>"
    by (auto simp: initialRun_def)
  let ?st1 = "\<lparr> usage_of = ?u1, storylines = [s1], signatures = [signatureOf (chain ?b1)] \<rparr>"
  have "signatureOf (chain (buildChain ?items ?r2 4 (usage_of ?st1) Map.empty)) \<in> set (signatures ?st1)"
    using sg by simp
  then have run2: "runRecipe ?items 4 Map.empty ?r2 ?st1 = Inr ?st1"
    by (intro runRecipe_skip disjI2)
  from runRecipes_ids [of ?items 4 Map.empty "drop 2 (recipes [])" ?st1] obtain st' new where
    run3: "runRecipes ?items 4 Map.empty (drop 2 (recipes [])) ?st1 = Inr st'"
    and sl: "storylines st' = storylines ?st1 @ new"
    and idn: "storyline_id ` set new \<subseteq> recipe_id ` set (drop 2 (recipes []))"
    by blast
  from run1 run2 run3 have
    "runRecipes ?items 4 Map.empty (?r1 # ?r2 # drop 2 (recipes [])) initialRun = Inr st'"
    by simp
  moreover have "runRecipes ?items 4 Map.empty (recipes []) initialRun
      = runRecipes ?items 4 Map.empty (?r1 # ?r2 # drop 2 (recipes [])) initialRun"
    by (rule arg_cong [OF recipes_three_parts [of "[]"],
          of "\<lambda>rs. runRecipes ?items 4 Map.empty rs initialRun"])
  ultimately have "runRecipes ?items 4 Map.empty (recipes []) initialRun = Inr st'"
    by (rule ssubst [of _ _ "\<lambda>x. x = Inr st'", rotated])
  then have run: "runRecipes ?items (normalTargetLength (length ?items)) Map.empty (recipes []) initialRun
      = Inr st'"
    unfolding tl .
  from sl have st: "storylines st' = s1 # new" by simp
  then have "storylines st' \<noteq> []" by simp
  from assembleStorylines_run [OF run this] have as: "assembleStorylines ?items [] Map.empty = Inr (s1 # new)"
    unfolding st .
  have ne: "dashAnecdotes \<noteq> []" by (simp add: dashAnecdotes_def)
  have "generateStorylines exampleClock dashAnecdotes
      = assembleStorylines ?items (getTopTags ?items 6) (computeTagWeights ?items)"
    using ne by (simp add: generateStorylines_def Let_def)
  then have g: "generateStorylines exampleClock dashAnecdotes = Inr (s1 # new)"
    unfolding tt tw as .
  from buildStoryline_Inr(2) [OF bs1] have id1: "storyline_id s1 = ''chronicle''"
    by (simp add: recipes_def)
  from idn have "''nightlife'' \<notin> storyline_id ` set new"
    unfolding recipes_rest_ids by auto
  with id1 have nn: "''nightlife'' \<notin> storyline_id ` set (s1 # new)" by simp
  have c0: "\<not> isl (generateStorylines exampleClock dashAnecdotes)" unfolding g by simp
  have pr: "projr (generateStorylines exampleClock dashAnecdotes) = s1 # new" unfolding g by simp
  have c1: "storyline_id (hd (projr (generateStorylines exampleClock dashAnecdotes))) = ''chronicle''"
    unfolding pr using id1 by simp
  have c2: "''nightlife'' \<notin> storyline_id ` set (projr (generateStorylines exampleClock dashAnecdotes))"
    unfolding pr using nn .
  from ids1 ids2 sg c0 c1 c2 show ?thesis by blast
qed

end
